theory Spec2Isabelle
  imports Complex_Main
begin

section \<open>Regression graph generator: a shallow embedding of app.py\<close>

text \<open>
  The program reads a table of per-segment regression fits, parses two equation
  strings per row and samples the curves into plot traces.  The embedding follows
  the Python source function by function.  Modelling decisions:
  \<^item> a Python \<open>str\<close> is a \<open>string\<close>; a \<open>char\<close> stands for a code point below 256;
  \<^item> a float is an \<open>npfloat\<close>: a finite value, an infinity or NaN.  Every
    arithmetic result is rounded to binary64 (53-bit significand, round to nearest,
    ties to even, gradual underflow, overflow to infinity); \<open>np.exp\<close> and \<open>np.log\<close>
    are taken as correctly rounded.  The sign of zero is not modelled;
  \<^item> an exception is a value \<open>Inl e\<close> of a sum type.
\<close>

subsection \<open>Exceptions\<close>

datatype py_error = ValueError | TypeError | KeyError

subsection \<open>Character classes of the regular expressions\<close>

text \<open>
  \<open>\s\<close> on a \<open>str\<close> pattern is Unicode white space; below code point 256 these are
  9..13, 28..32, 133 and 160.  \<open>\d\<close> is a Unicode decimal digit; below 256 these are
  the ASCII digits.  \<open>[-\d.]\<close> is the class of the two capture groups.
\<close>

definition is_space :: "char \<Rightarrow> bool" where
  "is_space c = (let n = (of_char c :: nat)
                 in (9 \<le> n \<and> n \<le> 13) \<or> (28 \<le> n \<and> n \<le> 32) \<or> n = 133 \<or> n = 160)"

definition is_digit :: "char \<Rightarrow> bool" where
  "is_digit c = (let n = (of_char c :: nat) in 48 \<le> n \<and> n \<le> 57)"

definition is_numch :: "char \<Rightarrow> bool" where
  "is_numch c = (c = CHR ''-'' \<or> is_digit c \<or> c = CHR ''.'')"

subsection \<open>Matching the two patterns at one position\<close>

text \<open>
  The patterns are
  \<^verbatim>\<open>y\s*=\s*([-\d.]+)\s*\*\s*ln\(x\)\s*\+\s*([-\d.]+)\<close> and
  \<^verbatim>\<open>y\s*=\s*([-\d.]+)\s*\*\s*x\s*\+\s*([-\d.]+)\<close>.
  Every starred or plussed class is followed by an element that no character of the
  class can match, so the greedy quantifiers never give a character back: each one
  takes the longest run, which is what \<open>skip_ws\<close> and \<open>take_num\<close> do.
\<close>

definition skip_ws :: "string \<Rightarrow> string" where
  "skip_ws s = dropWhile is_space s"

fun expect_str :: "string \<Rightarrow> string \<Rightarrow> string option" where
  "expect_str [] s = Some s"
| "expect_str (c # cs) [] = None"
| "expect_str (c # cs) (x # xs) = (if x = c then expect_str cs xs else None)"

definition take_num :: "string \<Rightarrow> (string \<times> string) option" where
  "take_num s = (let t = takeWhile is_numch s
                 in if t = [] then None else Some (t, dropWhile is_numch s))"

text \<open>\<open>match_eq_at mid s\<close>: the pattern with \<open>mid\<close> between \<open>\*\s*\<close> and \<open>\s*\+\<close>,
  anchored at the start of \<open>s\<close>; the result is the pair of capture groups.\<close>

definition match_eq_at :: "string \<Rightarrow> string \<Rightarrow> (string \<times> string) option" where
  "match_eq_at mid s =
     (case expect_str ''y'' s of None \<Rightarrow> None | Some r1 \<Rightarrow>
      case expect_str ''='' (skip_ws r1) of None \<Rightarrow> None | Some r2 \<Rightarrow>
      case take_num (skip_ws r2) of None \<Rightarrow> None | Some (g1, r3) \<Rightarrow>
      case expect_str ''*'' (skip_ws r3) of None \<Rightarrow> None | Some r4 \<Rightarrow>
      case expect_str mid (skip_ws r4) of None \<Rightarrow> None | Some r5 \<Rightarrow>
      case expect_str ''+'' (skip_ws r5) of None \<Rightarrow> None | Some r6 \<Rightarrow>
      case take_num (skip_ws r6) of None \<Rightarrow> None | Some (g2, r7) \<Rightarrow> Some (g1, g2))"

text \<open>\<open>re.search\<close>: the match at the leftmost position that has one.\<close>

fun re_search :: "(string \<Rightarrow> 'a option) \<Rightarrow> string \<Rightarrow> 'a option" where
  "re_search m [] = m []"
| "re_search m (c # cs) = (case m (c # cs) of Some r \<Rightarrow> Some r | None \<Rightarrow> re_search m cs)"

subsection \<open>Floats and rounding to binary64\<close>

text \<open>
  \<open>rne\<close> rounds a real to the nearest integer, ties to even.  For \<open>x > 0\<close> the
  spacing of the doubles around \<open>x\<close> is \<open>quantum x\<close>: \<open>2\<close> to the power \<open>e - 52\<close>,
  where \<open>e\<close> is the binary exponent of \<open>x\<close>, at least \<open>-1022\<close> (below that the
  doubles are subnormal and equally spaced).  \<open>round_mag\<close> rounds a positive real
  to a multiple of its quantum; a result of \<open>2\<close> to the \<open>1024\<close> or more overflows.
\<close>

datatype npfloat = Fin real | PInf | NInf | NaN

definition inf_of_sign :: "real \<Rightarrow> npfloat" where
  "inf_of_sign s = (if 0 < s then PInf else if s < 0 then NInf else NaN)"

definition rne :: "real \<Rightarrow> int" where
  "rne r = (let f = \<lfloor>r\<rfloor>; d = r - of_int f
            in if d < 1 / 2 then f else if 1 / 2 < d then f + 1
               else if even f then f else f + 1)"

definition quantum :: "real \<Rightarrow> real" where
  "quantum x = 2 powr (of_int (max \<lfloor>log 2 x\<rfloor> (- 1022)) - 52)"

definition round_mag :: "real \<Rightarrow> real" where
  "round_mag x = of_int (rne (x / quantum x)) * quantum x"

definition overflow_threshold :: real where
  "overflow_threshold = 2 powr 1024"

definition rnd64 :: "real \<Rightarrow> npfloat" where
  "rnd64 x = (if x = 0 then Fin 0
              else let y = round_mag \<bar>x\<bar>
                   in if overflow_threshold \<le> y then inf_of_sign x else Fin (sgn x * y))"

fun fl_sign :: "npfloat \<Rightarrow> real" where
  "fl_sign (Fin x) = sgn x"
| "fl_sign PInf = 1"
| "fl_sign NInf = - 1"
| "fl_sign NaN = 0"

fun fl_neg :: "npfloat \<Rightarrow> npfloat" where
  "fl_neg (Fin x) = Fin (- x)"
| "fl_neg PInf = NInf"
| "fl_neg NInf = PInf"
| "fl_neg NaN = NaN"

subsection \<open>\<open>float\<close> on a captured token\<close>

text \<open>
  A captured token consists of \<open>-\<close>, digits and \<open>.\<close> only.  On such a string \<open>float\<close>
  accepts an optional single leading \<open>-\<close>, then digits with at most one point and at
  least one digit, and raises ValueError on anything else.  The value is the
  decimal value rounded to a double (infinite for a token with too many digits).
\<close>

definition digit_val :: "char \<Rightarrow> nat" where
  "digit_val c = of_char c - 48"

definition digits_val :: "string \<Rightarrow> nat" where
  "digits_val s = foldl (\<lambda>acc c. 10 * acc + digit_val c) 0 s"

definition unsigned_float :: "string \<Rightarrow> py_error + npfloat" where
  "unsigned_float s =
     (let ip = takeWhile is_digit s; rest = dropWhile is_digit s
      in case rest of
           [] \<Rightarrow> if ip = [] then Inl ValueError else Inr (rnd64 (real (digits_val ip)))
         | c # fp \<Rightarrow>
             if c = CHR ''.'' \<and> list_all is_digit fp \<and> (ip \<noteq> [] \<or> fp \<noteq> [])
             then Inr (rnd64 (real (digits_val ip) + real (digits_val fp) / 10 ^ length fp))
             else Inl ValueError)"

definition py_float :: "string \<Rightarrow> py_error + npfloat" where
  "py_float s =
     (case s of
        [] \<Rightarrow> Inl ValueError
      | c # r \<Rightarrow> if c = CHR ''-'' then map_sum id fl_neg (unsigned_float r)
                 else unsigned_float s)"

subsection \<open>Cells of the table\<close>

text \<open>
  A cell of the data frame is a string or a float; an empty cell is the float NaN.
\<close>

datatype cell = CStr string | CFloat npfloat

subsection \<open>The equation parsers\<close>

text \<open>
  \<open>re.search\<close> raises TypeError on an argument that is not a string.  A match is
  followed by \<open>float\<close> on both groups, first group first.  No match gives
  \<open>(None, None)\<close>, here \<open>Inr None\<close>.
\<close>

definition parse_equation :: "string \<Rightarrow> cell \<Rightarrow> py_error + (npfloat \<times> npfloat) option" where
  "parse_equation mid eq_str =
     (case eq_str of
        CFloat v \<Rightarrow> Inl TypeError
      | CStr s \<Rightarrow>
          (case re_search (match_eq_at mid) s of
             None \<Rightarrow> Inr None
           | Some (g1, g2) \<Rightarrow>
               (case py_float g1 of
                  Inl e \<Rightarrow> Inl e
                | Inr a \<Rightarrow> (case py_float g2 of Inl e \<Rightarrow> Inl e | Inr b \<Rightarrow> Inr (Some (a, b))))))"

definition parse_log_equation :: "cell \<Rightarrow> py_error + (npfloat \<times> npfloat) option" where
  "parse_log_equation eq_str = parse_equation ''ln(x)'' eq_str"

definition parse_linear_equation :: "cell \<Rightarrow> py_error + (npfloat \<times> npfloat) option" where
  "parse_linear_equation eq_str = parse_equation ''x'' eq_str"

subsection \<open>Float arithmetic\<close>

text \<open>
  IEEE rules for the special values; a finite result is the exact result rounded by
  \<open>rnd64\<close>.  Division by a finite zero is written out for a positive zero.
\<close>

fun fl_add :: "npfloat \<Rightarrow> npfloat \<Rightarrow> npfloat" where
  "fl_add NaN v = NaN"
| "fl_add u NaN = NaN"
| "fl_add (Fin x) (Fin y) = rnd64 (x + y)"
| "fl_add PInf NInf = NaN"
| "fl_add NInf PInf = NaN"
| "fl_add PInf v = PInf"
| "fl_add NInf v = NInf"
| "fl_add (Fin x) v = v"

definition fl_sub :: "npfloat \<Rightarrow> npfloat \<Rightarrow> npfloat" where
  "fl_sub u v = fl_add u (fl_neg v)"

fun fl_mul :: "npfloat \<Rightarrow> npfloat \<Rightarrow> npfloat" where
  "fl_mul NaN v = NaN"
| "fl_mul u NaN = NaN"
| "fl_mul (Fin x) (Fin y) = rnd64 (x * y)"
| "fl_mul u v = inf_of_sign (fl_sign u * fl_sign v)"

fun fl_div :: "npfloat \<Rightarrow> npfloat \<Rightarrow> npfloat" where
  "fl_div NaN v = NaN"
| "fl_div u NaN = NaN"
| "fl_div (Fin x) (Fin y) = (if y = 0 then inf_of_sign x else rnd64 (x / y))"
| "fl_div (Fin x) v = Fin 0"
| "fl_div u (Fin y) = inf_of_sign (fl_sign u * (if 0 \<le> y then 1 else - 1))"
| "fl_div u v = NaN"

text \<open>\<open>fl_less u v\<close> is \<open>u < v\<close>; every comparison with NaN is false.\<close>

fun fl_less :: "npfloat \<Rightarrow> npfloat \<Rightarrow> bool" where
  "fl_less NaN v = False"
| "fl_less u NaN = False"
| "fl_less (Fin x) (Fin y) = (x < y)"
| "fl_less u PInf = (u \<noteq> PInf)"
| "fl_less NInf v = (v \<noteq> NInf)"
| "fl_less u v = False"

definition fl_le :: "npfloat \<Rightarrow> npfloat \<Rightarrow> bool" where
  "fl_le u v = (u \<noteq> NaN \<and> v \<noteq> NaN \<and> (fl_less u v \<or> u = v))"

text \<open>\<open>np.log\<close>: minus infinity at zero, NaN below zero (with a warning, no
  exception).\<close>

fun np_log :: "npfloat \<Rightarrow> npfloat" where
  "np_log (Fin x) = (if 0 < x then rnd64 (ln x) else if x = 0 then NInf else NaN)"
| "np_log PInf = PInf"
| "np_log NInf = NaN"
| "np_log NaN = NaN"

text \<open>\<open>np.exp\<close>: a tiny result underflows to zero, a huge one overflows to infinity.\<close>

fun np_exp :: "npfloat \<Rightarrow> npfloat" where
  "np_exp (Fin x) = rnd64 (exp x)"
| "np_exp PInf = PInf"
| "np_exp NInf = Fin 0"
| "np_exp NaN = NaN"

text \<open>Python's \<open>max(u, v)\<close> keeps \<open>u\<close> unless \<open>v > u\<close>.\<close>

definition py_max :: "npfloat \<Rightarrow> npfloat \<Rightarrow> npfloat" where
  "py_max u v = (if fl_less u v then v else u)"

subsection \<open>\<open>np.linspace\<close>\<close>

text \<open>
  With the end point included: \<open>dv = num - 1\<close> (numpy's \<open>div\<close>),
  \<open>step = (stop - start) / dv\<close>; sample \<open>i\<close> is \<open>i * step + start\<close>, or
  \<open>(i / dv) * (stop - start) + start\<close> when the step is zero; the last sample is
  overwritten by \<open>stop\<close> when \<open>num > 1\<close>.  Every operation rounds.
\<close>

definition linspace :: "npfloat \<Rightarrow> npfloat \<Rightarrow> nat \<Rightarrow> npfloat list" where
  "linspace start stop num =
     (let dv = num - 1;
          delta = fl_sub stop start;
          y = map (\<lambda>i. Fin (real i)) [0..<num];
          y1 = (if 0 < dv
                then (let step = fl_div delta (Fin (real dv))
                      in if step = Fin 0
                         then map (\<lambda>v. fl_mul (fl_div v (Fin (real dv))) delta) y
                         else map (\<lambda>v. fl_mul v step) y)
                else map (\<lambda>v. fl_mul v delta) y);
          y2 = map (\<lambda>v. fl_add v start) y1
      in if 1 < num then y2[num - 1 := stop] else y2)"

subsection \<open>The data frame\<close>

text \<open>
  The columns the program names: segment name, logarithmic equation, its R2,
  min x, max x, linear equation, its R2; \<open>Other\<close> is any other header.  A row gives
  a cell for each column; only the columns listed in \<open>df_columns\<close> exist, and
  reading another one raises KeyError.
\<close>

datatype column = Segment | LogEq | LogR2 | XMin | XMax | LinEq | LinR2 | Other string

record dataframe =
  df_columns :: "column list"
  df_rows :: "(column \<Rightarrow> cell) list"

definition bind_err :: "py_error + 'a \<Rightarrow> ('a \<Rightarrow> py_error + 'b) \<Rightarrow> py_error + 'b" where
  "bind_err r f = (case r of Inl e \<Rightarrow> Inl e | Inr v \<Rightarrow> f v)"

fun map_err :: "('a \<Rightarrow> py_error + 'b) \<Rightarrow> 'a list \<Rightarrow> py_error + 'b list" where
  "map_err f [] = Inr []"
| "map_err f (x # xs) =
     (case f x of
        Inl e \<Rightarrow> Inl e
      | Inr y \<Rightarrow> (case map_err f xs of Inl e \<Rightarrow> Inl e | Inr ys \<Rightarrow> Inr (y # ys)))"

text \<open>\<open>row[c]\<close> and \<open>df[c]\<close>.\<close>

definition row_get :: "column list \<Rightarrow> (column \<Rightarrow> cell) \<Rightarrow> column \<Rightarrow> py_error + cell" where
  "row_get cols row c = (if c \<in> set cols then Inr (row c) else Inl KeyError)"

definition df_col :: "dataframe \<Rightarrow> column \<Rightarrow> py_error + cell list" where
  "df_col df c = (if c \<in> set (df_columns df) then Inr (map (\<lambda>row. row c) (df_rows df))
                  else Inl KeyError)"

text \<open>
  Numeric use of a cell.  After the coercion in the button handler the numeric
  columns hold floats only; a string there would raise.
\<close>

definition as_float :: "cell \<Rightarrow> py_error + npfloat" where
  "as_float c = (case c of CFloat v \<Rightarrow> Inr v | CStr s \<Rightarrow> Inl TypeError)"

text \<open>The \<open>.3f\<close> format of an R2 value raises ValueError on a string.\<close>

definition format_r2 :: "cell \<Rightarrow> py_error + npfloat" where
  "format_r2 c = (case c of CFloat v \<Rightarrow> Inr v | CStr s \<Rightarrow> Inl ValueError)"

text \<open>\<open>Series.min()\<close> and \<open>Series.max()\<close> skip NaN; with nothing left they give NaN.\<close>

definition series_min :: "npfloat list \<Rightarrow> npfloat" where
  "series_min xs = foldl (\<lambda>m x. if x = NaN then m else if m = NaN \<or> fl_less x m then x else m) NaN xs"

definition series_max :: "npfloat list \<Rightarrow> npfloat" where
  "series_max xs = foldl (\<lambda>m x. if x = NaN then m else if m = NaN \<or> fl_less m x then x else m) NaN xs"

text \<open>
  \<open>pd.to_numeric(df[c], errors='coerce')\<close> assigned back to \<open>df[c]\<close>: KeyError when
  the column is absent; a float stays, a string becomes the number it spells or NaN.
  How pandas reads a number from a string is the parameter \<open>str_to_num\<close>.
\<close>

definition to_numeric_cell :: "(string \<Rightarrow> npfloat option) \<Rightarrow> cell \<Rightarrow> cell" where
  "to_numeric_cell str_to_num c =
     (case c of
        CFloat v \<Rightarrow> CFloat v
      | CStr s \<Rightarrow> (case str_to_num s of Some v \<Rightarrow> CFloat v | None \<Rightarrow> CFloat NaN))"

definition to_numeric :: "(string \<Rightarrow> npfloat option) \<Rightarrow> column \<Rightarrow> dataframe \<Rightarrow> py_error + dataframe" where
  "to_numeric str_to_num c df =
     (if c \<in> set (df_columns df)
      then Inr (df\<lparr>df_rows := map (\<lambda>row. row(c := to_numeric_cell str_to_num (row c))) (df_rows df)\<rparr>)
      else Inl KeyError)"

subsection \<open>Traces\<close>

text \<open>
  One \<open>go.Scatter\<close> added to a figure.  \<open>tr_brand\<close> and \<open>tr_model\<close> stand for the legend
  group, \<open>tr_color\<close> is the palette index, \<open>tr_r2\<close> the R2 value printed in the name
  of an observed trace.  \<open>tr_region\<close> records which \<open>add_trace\<close> call made the trace:
  the one over \<open>[x_min, x_max]\<close>, over \<open>[all_x_min, x_min]\<close> or over
  \<open>[x_max, all_x_max]\<close>.  Names and hover texts are not modelled.
\<close>

datatype region = Observed | ExtrapolatedLow | ExtrapolatedHigh

datatype model_kind = Logarithmic | Linear

datatype dash = Solid | Dot | Dash

datatype graph_type = LogOnly | LinOnly | Both

record trace =
  tr_x :: "npfloat list"
  tr_y :: "npfloat list"
  tr_brand :: cell
  tr_model :: model_kind
  tr_color :: nat
  tr_dash :: dash
  tr_showlegend :: bool
  tr_r2 :: "npfloat option"
  tr_region :: region

definition uu_log :: "npfloat \<Rightarrow> npfloat \<Rightarrow> npfloat list \<Rightarrow> npfloat list" where
  "uu_log a b xs = map (\<lambda>x. fl_add (fl_mul a (np_log x)) b) xs"

definition uu_lin :: "npfloat \<Rightarrow> npfloat \<Rightarrow> npfloat list \<Rightarrow> npfloat list" where
  "uu_lin a b xs = map (\<lambda>x. fl_add (fl_mul a x) b) xs"

definition uu_model :: "model_kind \<Rightarrow> npfloat \<Rightarrow> npfloat \<Rightarrow> npfloat list \<Rightarrow> npfloat list" where
  "uu_model m a b xs = (case m of Logarithmic \<Rightarrow> uu_log a b xs | Linear \<Rightarrow> uu_lin a b xs)"

definition observed_dash :: "graph_type \<Rightarrow> model_kind \<Rightarrow> dash" where
  "observed_dash gt m = (if m = Linear \<and> gt = Both then Dot else Solid)"

subsection \<open>\<open>generate_graph\<close>: the acquisition chart\<close>

text \<open>
  The logarithmic and the linear block of the loop body differ in the parser, the
  columns read, the curve and the dash of the observed trace; \<open>model_kind\<close> selects
  among them.  The palette has 15 colours.
\<close>

definition eq_column :: "model_kind \<Rightarrow> column" where
  "eq_column m = (case m of Logarithmic \<Rightarrow> LogEq | Linear \<Rightarrow> LinEq)"

definition r2_column :: "model_kind \<Rightarrow> column" where
  "r2_column m = (case m of Logarithmic \<Rightarrow> LogR2 | Linear \<Rightarrow> LinR2)"

definition parse_model :: "model_kind \<Rightarrow> cell \<Rightarrow> py_error + (npfloat \<times> npfloat) option" where
  "parse_model m eq_str =
     (case m of Logarithmic \<Rightarrow> parse_log_equation eq_str | Linear \<Rightarrow> parse_linear_equation eq_str)"

definition shows_model :: "graph_type \<Rightarrow> model_kind \<Rightarrow> bool" where
  "shows_model gt m = (case m of Logarithmic \<Rightarrow> gt = LogOnly \<or> gt = Both
                                | Linear \<Rightarrow> gt = LinOnly \<or> gt = Both)"

definition uu_observed ::
  "graph_type \<Rightarrow> model_kind \<Rightarrow> cell \<Rightarrow> nat \<Rightarrow> npfloat \<Rightarrow> npfloat \<Rightarrow> npfloat \<Rightarrow> npfloat \<Rightarrow> npfloat \<Rightarrow> trace" where
  "uu_observed gt m brand color r2 a b x_min x_max =
     \<lparr>tr_x = linspace x_min x_max 300,
      tr_y = uu_model m a b (linspace x_min x_max 300),
      tr_brand = brand, tr_model = m, tr_color = color,
      tr_dash = observed_dash gt m, tr_showlegend = True,
      tr_r2 = Some r2, tr_region = Observed\<rparr>"

definition uu_extrapolated ::
  "model_kind \<Rightarrow> cell \<Rightarrow> nat \<Rightarrow> npfloat \<Rightarrow> npfloat \<Rightarrow> npfloat \<Rightarrow> npfloat \<Rightarrow> region \<Rightarrow> trace" where
  "uu_extrapolated m brand color a b lo hi reg =
     \<lparr>tr_x = linspace lo hi 100,
      tr_y = uu_model m a b (linspace lo hi 100),
      tr_brand = brand, tr_model = m, tr_color = color,
      tr_dash = Dash, tr_showlegend = False,
      tr_r2 = None, tr_region = reg\<rparr>"

text \<open>The traces one block adds once the coefficients are there.\<close>

definition uu_block ::
  "graph_type \<Rightarrow> model_kind \<Rightarrow> bool \<Rightarrow> cell \<Rightarrow> nat \<Rightarrow> npfloat \<Rightarrow> npfloat \<Rightarrow> npfloat
     \<Rightarrow> npfloat \<Rightarrow> npfloat \<Rightarrow> npfloat \<Rightarrow> npfloat \<Rightarrow> trace list" where
  "uu_block gt m show_extrapolation brand color r2 a b x_min x_max all_x_min all_x_max =
     uu_observed gt m brand color r2 a b x_min x_max #
     (if show_extrapolation
      then (if fl_less all_x_min x_min
            then [uu_extrapolated m brand color a b all_x_min x_min ExtrapolatedLow] else []) @
           (if fl_less x_max all_x_max
            then [uu_extrapolated m brand color a b x_max all_x_max ExtrapolatedHigh] else [])
      else [])"

text \<open>One block: the test on the graph type, the parse, the R2 read, the guard
  \<open>a is not None\<close>.\<close>

definition uu_part ::
  "graph_type \<Rightarrow> model_kind \<Rightarrow> bool \<Rightarrow> column list \<Rightarrow> (column \<Rightarrow> cell) \<Rightarrow> cell \<Rightarrow> nat
     \<Rightarrow> cell \<Rightarrow> cell \<Rightarrow> npfloat \<Rightarrow> npfloat \<Rightarrow> py_error + trace list" where
  "uu_part gt m show_extrapolation cols row brand color x_min x_max all_x_min all_x_max =
     (if shows_model gt m
      then bind_err (row_get cols row (eq_column m)) (\<lambda>eq_str.
           bind_err (parse_model m eq_str) (\<lambda>co.
           bind_err (row_get cols row (r2_column m)) (\<lambda>r2.
             case co of
               None \<Rightarrow> Inr []
             | Some (a, b) \<Rightarrow>
                 bind_err (as_float x_min) (\<lambda>xmin.
                 bind_err (as_float x_max) (\<lambda>xmax.
                 bind_err (format_r2 r2) (\<lambda>r2v.
                   Inr (uu_block gt m show_extrapolation brand color r2v a b
                          xmin xmax all_x_min all_x_max)))))))
      else Inr [])"

text \<open>The loop body for row number \<open>i\<close>.\<close>

definition graph_row ::
  "graph_type \<Rightarrow> bool \<Rightarrow> column list \<Rightarrow> npfloat \<Rightarrow> npfloat \<Rightarrow> nat \<times> (column \<Rightarrow> cell)
     \<Rightarrow> py_error + trace list" where
  "graph_row gt show_extrapolation cols all_x_min all_x_max ir =
     (let i = fst ir; row = snd ir in
      bind_err (row_get cols row Segment) (\<lambda>brand.
      bind_err (row_get cols row XMin) (\<lambda>x_min.
      bind_err (row_get cols row XMax) (\<lambda>x_max.
      bind_err (uu_part gt Logarithmic show_extrapolation cols row brand (i mod 15)
                  x_min x_max all_x_min all_x_max) (\<lambda>log_traces.
      bind_err (uu_part gt Linear show_extrapolation cols row brand (i mod 15)
                  x_min x_max all_x_min all_x_max) (\<lambda>lin_traces.
        Inr (log_traces @ lin_traces)))))))"

definition generate_graph :: "dataframe \<Rightarrow> graph_type \<Rightarrow> bool \<Rightarrow> real \<Rightarrow> py_error + trace list" where
  "generate_graph df gt show_extrapolation extrap_ratio =
     bind_err (df_col df XMin) (\<lambda>min_cells.
     bind_err (map_err as_float min_cells) (\<lambda>mins.
     bind_err (df_col df XMax) (\<lambda>max_cells.
     bind_err (map_err as_float max_cells) (\<lambda>maxs.
     bind_err (map_err (graph_row gt show_extrapolation (df_columns df) (series_min mins)
                          (fl_mul (series_max maxs) (Fin extrap_ratio)))
                 (enumerate 0 (df_rows df))) (\<lambda>tss.
       Inr (concat tss))))))"

subsection \<open>\<open>find_ncpa_minimum_log\<close> and \<open>generate_ncpa_graph\<close>: the cost chart\<close>

definition find_ncpa_minimum_log :: "npfloat \<Rightarrow> npfloat \<Rightarrow> npfloat option" where
  "find_ncpa_minimum_log a b =
     (if fl_le a (Fin 0) then None
      else let x_min = np_exp (fl_sub (Fin 1) (fl_div b a));
               uu_at_min = fl_add (fl_mul a (np_log x_min)) b
           in if fl_less (Fin 0) uu_at_min then Some x_min else None)"

text \<open>\<open>np.where(y_uu > 0, x / y_uu, np.nan)\<close>, sample by sample.\<close>

definition ncpa_values :: "npfloat list \<Rightarrow> npfloat list \<Rightarrow> npfloat list" where
  "ncpa_values xs y_uu = map (\<lambda>xu. if fl_less (Fin 0) (snd xu) then fl_div (fst xu) (snd xu) else NaN)
                            (zip xs y_uu)"

definition ncpa_x_start :: "npfloat \<Rightarrow> npfloat \<Rightarrow> npfloat \<Rightarrow> npfloat" where
  "ncpa_x_start a b x_min =
     (case find_ncpa_minimum_log a b of
        Some x_ncpa_min \<Rightarrow> py_max x_ncpa_min x_min
      | None \<Rightarrow> x_min)"

definition ncpa_observed ::
  "graph_type \<Rightarrow> model_kind \<Rightarrow> cell \<Rightarrow> nat \<Rightarrow> npfloat \<Rightarrow> npfloat \<Rightarrow> npfloat \<Rightarrow> npfloat \<Rightarrow> npfloat \<Rightarrow> trace" where
  "ncpa_observed gt m brand color r2 a b lo x_max =
     \<lparr>tr_x = linspace lo x_max 300,
      tr_y = ncpa_values (linspace lo x_max 300) (uu_model m a b (linspace lo x_max 300)),
      tr_brand = brand, tr_model = m, tr_color = color,
      tr_dash = observed_dash gt m, tr_showlegend = True,
      tr_r2 = Some r2, tr_region = Observed\<rparr>"

definition ncpa_extrapolated ::
  "model_kind \<Rightarrow> cell \<Rightarrow> nat \<Rightarrow> npfloat \<Rightarrow> npfloat \<Rightarrow> npfloat \<Rightarrow> npfloat \<Rightarrow> trace" where
  "ncpa_extrapolated m brand color a b x_max all_x_max =
     \<lparr>tr_x = linspace x_max all_x_max 100,
      tr_y = ncpa_values (linspace x_max all_x_max 100)
               (uu_model m a b (linspace x_max all_x_max 100)),
      tr_brand = brand, tr_model = m, tr_color = color,
      tr_dash = Dash, tr_showlegend = False,
      tr_r2 = None, tr_region = ExtrapolatedHigh\<rparr>"

text \<open>The logarithmic block after the guard \<open>a_log is not None\<close>: everything sits
  under \<open>if x_start < x_max\<close>, the R2 format included.\<close>

definition ncpa_log_block ::
  "graph_type \<Rightarrow> bool \<Rightarrow> cell \<Rightarrow> nat \<Rightarrow> cell \<Rightarrow> npfloat \<Rightarrow> npfloat
     \<Rightarrow> npfloat \<Rightarrow> npfloat \<Rightarrow> npfloat \<Rightarrow> py_error + trace list" where
  "ncpa_log_block gt show_extrapolation brand color r2 a b x_min x_max all_x_max =
     (let x_start = ncpa_x_start a b x_min in
      if fl_less x_start x_max
      then bind_err (format_r2 r2) (\<lambda>r2v.
             Inr (ncpa_observed gt Logarithmic brand color r2v a b x_start x_max #
                  (if show_extrapolation \<and> fl_less x_max all_x_max
                   then [ncpa_extrapolated Logarithmic brand color a b x_max all_x_max]
                   else [])))
      else Inr [])"

text \<open>The linear block after the guard \<open>a_lin is not None\<close>.\<close>

definition ncpa_lin_block ::
  "graph_type \<Rightarrow> bool \<Rightarrow> cell \<Rightarrow> nat \<Rightarrow> cell \<Rightarrow> npfloat \<Rightarrow> npfloat
     \<Rightarrow> npfloat \<Rightarrow> npfloat \<Rightarrow> npfloat \<Rightarrow> py_error + trace list" where
  "ncpa_lin_block gt show_extrapolation brand color r2 a b x_min x_max all_x_max =
     bind_err (format_r2 r2) (\<lambda>r2v.
       Inr (ncpa_observed gt Linear brand color r2v a b x_min x_max #
            (if show_extrapolation \<and> fl_less x_max all_x_max
             then [ncpa_extrapolated Linear brand color a b x_max all_x_max]
             else [])))"

definition ncpa_part ::
  "graph_type \<Rightarrow> model_kind \<Rightarrow> bool \<Rightarrow> column list \<Rightarrow> (column \<Rightarrow> cell) \<Rightarrow> cell \<Rightarrow> nat
     \<Rightarrow> cell \<Rightarrow> cell \<Rightarrow> npfloat \<Rightarrow> py_error + trace list" where
  "ncpa_part gt m show_extrapolation cols row brand color x_min x_max all_x_max =
     (if shows_model gt m
      then bind_err (row_get cols row (eq_column m)) (\<lambda>eq_str.
           bind_err (parse_model m eq_str) (\<lambda>co.
           bind_err (row_get cols row (r2_column m)) (\<lambda>r2.
             case co of
               None \<Rightarrow> Inr []
             | Some (a, b) \<Rightarrow>
                 bind_err (as_float x_min) (\<lambda>xmin.
                 bind_err (as_float x_max) (\<lambda>xmax.
                   case m of
                     Logarithmic \<Rightarrow>
                       ncpa_log_block gt show_extrapolation brand color r2 a b xmin xmax all_x_max
                   | Linear \<Rightarrow>
                       ncpa_lin_block gt show_extrapolation brand color r2 a b xmin xmax all_x_max)))))
      else Inr [])"

definition ncpa_row ::
  "graph_type \<Rightarrow> bool \<Rightarrow> column list \<Rightarrow> npfloat \<Rightarrow> nat \<times> (column \<Rightarrow> cell) \<Rightarrow> py_error + trace list" where
  "ncpa_row gt show_extrapolation cols all_x_max ir =
     (let i = fst ir; row = snd ir in
      bind_err (row_get cols row Segment) (\<lambda>brand.
      bind_err (row_get cols row XMin) (\<lambda>x_min.
      bind_err (row_get cols row XMax) (\<lambda>x_max.
      bind_err (ncpa_part gt Logarithmic show_extrapolation cols row brand (i mod 15)
                  x_min x_max all_x_max) (\<lambda>log_traces.
      bind_err (ncpa_part gt Linear show_extrapolation cols row brand (i mod 15)
                  x_min x_max all_x_max) (\<lambda>lin_traces.
        Inr (log_traces @ lin_traces)))))))"

definition generate_ncpa_graph :: "dataframe \<Rightarrow> graph_type \<Rightarrow> bool \<Rightarrow> real \<Rightarrow> py_error + trace list" where
  "generate_ncpa_graph df gt show_extrapolation extrap_ratio =
     bind_err (df_col df XMax) (\<lambda>max_cells.
     bind_err (map_err as_float max_cells) (\<lambda>maxs.
     bind_err (map_err (ncpa_row gt show_extrapolation (df_columns df)
                          (fl_mul (series_max maxs) (Fin extrap_ratio)))
                 (enumerate 0 (df_rows df))) (\<lambda>tss.
       Inr (concat tss))))"

subsection \<open>The handler of the generate button\<close>

text \<open>
  The data frame is what \<open>pd.read_csv\<close> returned.  A missing required column is
  reported and nothing is generated; any exception raised afterwards is caught by
  the handler's \<open>except Exception\<close>, reported, and nothing is stored; otherwise both
  figures are stored in the session.
\<close>

datatype outcome =
    MissingColumns "column list"
  | Failed py_error
  | Generated "trace list" "trace list"

definition required_cols :: "column list" where
  "required_cols = [Segment, XMin, XMax]"

definition generate_button ::
  "(string \<Rightarrow> npfloat option) \<Rightarrow> dataframe \<Rightarrow> graph_type \<Rightarrow> bool \<Rightarrow> real \<Rightarrow> outcome" where
  "generate_button str_to_num df gt show_extrapolation extrapolation_ratio =
     (let missing_cols = filter (\<lambda>c. c \<notin> set (df_columns df)) required_cols in
      if missing_cols \<noteq> [] then MissingColumns missing_cols
      else
        (case bind_err (to_numeric str_to_num XMin df) (\<lambda>df1.
              bind_err (to_numeric str_to_num XMax df1) (\<lambda>df2.
              bind_err (to_numeric str_to_num LogR2 df2) (\<lambda>df3.
              bind_err (to_numeric str_to_num LinR2 df3) (\<lambda>df4.
              bind_err (generate_graph df4 gt show_extrapolation extrapolation_ratio) (\<lambda>fig_uu.
              bind_err (generate_ncpa_graph df4 gt show_extrapolation extrapolation_ratio) (\<lambda>fig_ncpa.
                Inr (fig_uu, fig_ncpa))))))) of
           Inl e \<Rightarrow> Failed e
         | Inr figs \<Rightarrow> Generated (fst figs) (snd figs)))"

subsection \<open>The language of the patterns, as the specification words it\<close>

text \<open>
  A string matches the pattern with \<open>mid\<close> in the middle when it is \<open>y\<close>, white
  space, \<open>=\<close>, white space, a token, white space, \<open>*\<close>, white space, \<open>mid\<close>, white
  space, \<open>+\<close>, white space, a token; a token is a non-empty string of digits, \<open>-\<close>
  and \<open>.\<close>.  This definition is declarative; the parsers do not use it.
\<close>

definition is_token :: "string \<Rightarrow> bool" where
  "is_token g = (g \<noteq> [] \<and> list_all is_numch g)"

definition matches_pattern :: "string \<Rightarrow> string \<Rightarrow> bool" where
  "matches_pattern mid m =
     (\<exists>w1 w2 g1 w3 w4 w5 w6 g2.
        m = ''y'' @ w1 @ ''='' @ w2 @ g1 @ w3 @ ''*'' @ w4 @ mid @ w5 @ ''+'' @ w6 @ g2
        \<and> list_all is_space w1 \<and> list_all is_space w2 \<and> list_all is_space w3
        \<and> list_all is_space w4 \<and> list_all is_space w5 \<and> list_all is_space w6
        \<and> is_token g1 \<and> is_token g2)"

subsection \<open>Example tables\<close>

text \<open>
  The first two rows of the sample data built into the program (segment names
  shortened), and small tables for the boundary cases: a row with \<open>min x = 0\<close>, a row
  whose logarithmic equation cell is empty, a row whose cost minimum underflows
  (\<open>a = 1\<close>, \<open>b = 10000\<close>), two rows with \<open>a = 1\<close>, \<open>b = 0\<close> and \<open>min x\<close> below and above
  the cost minimum, a table with the three required columns only, and a table
  without the two linear columns.
\<close>

definition all_cols :: "column list" where
  "all_cols = [Segment, LogEq, LogR2, XMin, XMax, LinEq, LinR2]"

definition sample_row1 :: "column \<Rightarrow> cell" where
  "sample_row1 c =
     (case c of
        Segment \<Rightarrow> CStr ''A1''
      | LogEq \<Rightarrow> CStr ''y = 77.1095 * ln(x) + -656.0219''
      | LogR2 \<Rightarrow> CFloat (Fin 0.61)
      | XMin \<Rightarrow> CFloat (Fin 150)
      | XMax \<Rightarrow> CFloat (Fin 195023)
      | LinEq \<Rightarrow> CStr ''y = 0.0013 * x + 54.4297''
      | LinR2 \<Rightarrow> CFloat (Fin 0.60)
      | Other s \<Rightarrow> CFloat NaN)"

definition sample_row2 :: "column \<Rightarrow> cell" where
  "sample_row2 c =
     (case c of
        Segment \<Rightarrow> CStr ''A2''
      | LogEq \<Rightarrow> CStr ''y = 365.3877 * ln(x) + -3853.9650''
      | LogR2 \<Rightarrow> CFloat (Fin 0.81)
      | XMin \<Rightarrow> CFloat (Fin 2198)
      | XMax \<Rightarrow> CFloat (Fin 833174)
      | LinEq \<Rightarrow> CStr ''y = 0.0015 * x + 178.5103''
      | LinR2 \<Rightarrow> CFloat (Fin 0.83)
      | Other s \<Rightarrow> CFloat NaN)"

definition sample_df :: dataframe where
  "sample_df = \<lparr>df_columns = all_cols, df_rows = [sample_row1, sample_row2]\<rparr>"

definition zero_min_row :: "column \<Rightarrow> cell" where
  "zero_min_row c =
     (case c of
        Segment \<Rightarrow> CStr ''Z''
      | LogEq \<Rightarrow> CStr ''y = 2 * ln(x) + 3''
      | LogR2 \<Rightarrow> CFloat (Fin 0.5)
      | XMin \<Rightarrow> CFloat (Fin 0)
      | XMax \<Rightarrow> CFloat (Fin 10)
      | LinEq \<Rightarrow> CStr ''y = 2 * x + 3''
      | LinR2 \<Rightarrow> CFloat (Fin 0.5)
      | Other s \<Rightarrow> CFloat NaN)"

definition zero_min_df :: dataframe where
  "zero_min_df = \<lparr>df_columns = all_cols, df_rows = [zero_min_row]\<rparr>"

definition empty_log_row :: "column \<Rightarrow> cell" where
  "empty_log_row c =
     (case c of
        Segment \<Rightarrow> CStr ''E''
      | LogEq \<Rightarrow> CFloat NaN
      | LogR2 \<Rightarrow> CFloat NaN
      | XMin \<Rightarrow> CFloat (Fin 1)
      | XMax \<Rightarrow> CFloat (Fin 10)
      | LinEq \<Rightarrow> CStr ''y = 2 * x + 3''
      | LinR2 \<Rightarrow> CFloat (Fin 0.5)
      | Other s \<Rightarrow> CFloat NaN)"

definition empty_log_df :: dataframe where
  "empty_log_df = \<lparr>df_columns = all_cols, df_rows = [empty_log_row]\<rparr>"

definition steep_row :: "column \<Rightarrow> cell" where
  "steep_row c =
     (case c of
        Segment \<Rightarrow> CStr ''S''
      | LogEq \<Rightarrow> CStr ''y = 1 * ln(x) + 10000''
      | LogR2 \<Rightarrow> CFloat (Fin 0.5)
      | XMin \<Rightarrow> CFloat (Fin 1)
      | XMax \<Rightarrow> CFloat (Fin 2)
      | LinEq \<Rightarrow> CStr ''y = 2 * x + 3''
      | LinR2 \<Rightarrow> CFloat (Fin 0.5)
      | Other s \<Rightarrow> CFloat NaN)"

definition steep_df :: dataframe where
  "steep_df = \<lparr>df_columns = all_cols, df_rows = [steep_row]\<rparr>"



definition required_only_df :: dataframe where
  "required_only_df = \<lparr>df_columns = [Segment, XMin, XMax], df_rows = [sample_row1]\<rparr>"

definition log_only_df :: dataframe where
  "log_only_df = \<lparr>df_columns = [Segment, LogEq, LogR2, XMin, XMax], df_rows = [sample_row1]\<rparr>"

section \<open>Properties\<close>

subsection \<open>Rounding to binary64\<close>

lemma rne_of_int: "rne (of_int n) = n"
  by (simp add: rne_def)

lemma rne_range: "rne r = \<lfloor>r\<rfloor> \<or> rne r = \<lfloor>r\<rfloor> + 1"
  by (simp add: rne_def Let_def)

lemma rne_mono:
  assumes "r \<le> s"
  shows "rne r \<le> rne s"
proof (cases "\<lfloor>r\<rfloor> = \<lfloor>s\<rfloor>")
  case True
  have "r - of_int \<lfloor>s\<rfloor> \<le> s - of_int \<lfloor>s\<rfloor>" using assms by simp
  then show ?thesis using True by (auto simp: rne_def Let_def)
next
  case False
  then have "\<lfloor>r\<rfloor> < \<lfloor>s\<rfloor>" using floor_mono[OF assms] by simp
  then have "\<lfloor>r\<rfloor> + 1 \<le> \<lfloor>s\<rfloor>" by simp
  then show ?thesis using rne_range[of r] rne_range[of s] by auto
qed

lemma rne_nonneg: "0 \<le> r \<Longrightarrow> 0 \<le> rne r"
  using rne_mono[of 0 r] by (simp add: rne_def)

lemma quantum_pos: "0 < quantum x"
  by (simp add: quantum_def)

lemma round_mag_nonneg: "0 \<le> x \<Longrightarrow> 0 \<le> round_mag x"
  using rne_nonneg[of "x / quantum x"] quantum_pos[of x] by (simp add: round_mag_def)

lemma floor_log2_bounds:
  assumes "0 < x"
  shows "2 powr of_int \<lfloor>log 2 x\<rfloor> \<le> x" and "x < 2 powr (of_int \<lfloor>log 2 x\<rfloor> + 1)"
  using floor_log_eq_powr_iff[of x 2 "\<lfloor>log 2 x\<rfloor>"] assms by simp_all

lemma round_mag_le_multiple:
  assumes "0 < x" "x \<le> of_int k * quantum x"
  shows "round_mag x \<le> of_int k * quantum x"
proof -
  have "x / quantum x \<le> of_int k" using assms quantum_pos[of x] by (simp add: pos_divide_le_eq)
  then have "rne (x / quantum x) \<le> k" using rne_mono rne_of_int by metis
  then show ?thesis using quantum_pos[of x] by (simp add: round_mag_def)
qed

lemma round_mag_ge_multiple:
  assumes "0 < x" "of_int k * quantum x \<le> x"
  shows "of_int k * quantum x \<le> round_mag x"
proof -
  have "of_int k \<le> x / quantum x" using assms quantum_pos[of x] by (simp add: pos_le_divide_eq)
  then have "k \<le> rne (x / quantum x)" using rne_mono rne_of_int by metis
  then show ?thesis using quantum_pos[of x] by (simp add: round_mag_def)
qed


lemma quantum_mult: "of_int (2 ^ 53) * quantum x = 2 powr (of_int (max \<lfloor>log 2 x\<rfloor> (- 1022)) + 1)"
proof -
  define A :: real where "A = of_int (max \<lfloor>log 2 x\<rfloor> (- 1022))"
  have "(2::real) powr 53 * 2 powr (A - 52) = 2 powr (53 + (A - 52))" by (rule powr_add [symmetric])
  also have "53 + (A - 52) = A + 1" by simp
  finally have "(2::real) powr 53 * 2 powr (A - 52) = 2 powr (A + 1)" .
  moreover have "(2::real) powr 53 = of_int (2 ^ 53)" by simp
  ultimately show ?thesis by (simp only: quantum_def A_def)
qed

lemma quantum_mult52: "of_int (2 ^ 52) * quantum x = 2 powr (of_int (max \<lfloor>log 2 x\<rfloor> (- 1022)))"
proof -
  define A :: real where "A = of_int (max \<lfloor>log 2 x\<rfloor> (- 1022))"
  have "(2::real) powr 52 * 2 powr (A - 52) = 2 powr (52 + (A - 52))" by (rule powr_add [symmetric])
  also have "52 + (A - 52) = A" by simp
  finally have "(2::real) powr 52 * 2 powr (A - 52) = 2 powr A" .
  moreover have "(2::real) powr 52 = of_int (2 ^ 52)" by simp
  ultimately show ?thesis by (simp only: quantum_def A_def)
qed

lemma below_next_power:
  assumes "0 < x"
  shows "x < 2 powr (of_int (max \<lfloor>log 2 x\<rfloor> (- 1022)) + 1)"
proof -
  have "x < 2 powr (of_int \<lfloor>log 2 x\<rfloor> + 1)" using floor_log2_bounds(2)[OF assms] .
  also have "\<dots> \<le> 2 powr (of_int (max \<lfloor>log 2 x\<rfloor> (- 1022)) + 1)" by simp
  finally show ?thesis .
qed

lemma round_mag_mono:
  assumes "0 < x" "x \<le> y"
  shows "round_mag x \<le> round_mag y"
proof -
  define ex where "ex = max \<lfloor>log 2 x\<rfloor> (- 1022)"
  define ey where "ey = max \<lfloor>log 2 y\<rfloor> (- 1022)"
  have y: "0 < y" using assms by simp
  have "log 2 x \<le> log 2 y" using assms y by simp
  then have "\<lfloor>log 2 x\<rfloor> \<le> \<lfloor>log 2 y\<rfloor>" by (rule floor_mono)
  then have le: "ex \<le> ey" by (simp add: ex_def ey_def)
  show ?thesis
  proof (cases "ex = ey")
    case True
    then have q: "quantum x = quantum y" by (simp add: quantum_def ex_def ey_def)
    have "x / quantum y \<le> y / quantum y" using assms quantum_pos[of y] by (simp add: divide_right_mono)
    then have "rne (x / quantum y) \<le> rne (y / quantum y)" by (rule rne_mono)
    then show ?thesis using quantum_pos[of y] by (simp add: round_mag_def q)
  next
    case False
    then have lt: "ex + 1 \<le> ey" using le by simp
    have "x \<le> of_int (2 ^ 53) * quantum x"
      using below_next_power[OF assms(1)] by (simp only: quantum_mult)
    then have 1: "round_mag x \<le> 2 powr (of_int ex + 1)"
      using round_mag_le_multiple[OF assms(1), of "2 ^ 53"] by (simp only: quantum_mult ex_def)
    have "- 1022 \<le> ex" by (simp add: ex_def)
    then have "- 1022 < ey" using lt by simp
    then have eyf: "ey = \<lfloor>log 2 y\<rfloor>" by (simp add: ey_def max_def split: if_splits)
    have "2 powr (of_int ey) \<le> y" using floor_log2_bounds(1)[OF y] by (simp add: eyf)
    then have "of_int (2 ^ 52) * quantum y \<le> y" by (simp only: quantum_mult52 ey_def)
    then have 2: "2 powr (of_int ey) \<le> round_mag y"
      using round_mag_ge_multiple[OF y, of "2 ^ 52"] by (simp only: quantum_mult52 ey_def)
    have "(2::real) powr (of_int ex + 1) \<le> 2 powr (of_int ey)" using lt by simp
    then show ?thesis using 1 2 by linarith
  qed
qed

lemma round_mag_dyadic:
  assumes m: "0 < m" "m < 2 ^ 53" and k: "- 1074 \<le> k"
  shows "round_mag (of_int m * 2 powr of_int k) = of_int m * 2 powr of_int k"
proof -
  define x :: real where "x = of_int m * 2 powr of_int k"
  have xpos: "0 < x" using m by (simp add: x_def)
  define e where "e = max \<lfloor>log 2 x\<rfloor> (- 1022)"
  have "of_int m < (2::real) ^ 53" using m(2) by (metis of_int_less_numeral_power_cancel_iff)
  then have "x < 2 ^ 53 * 2 powr of_int k" by (simp add: x_def)
  also have "\<dots> = 2 powr (of_int (52 + k) + 1)" by (simp add: powr_add)
  finally have xu: "x < 2 powr (of_int (52 + k) + 1)" .
  have "2 powr of_int \<lfloor>log 2 x\<rfloor> < (2::real) powr (of_int (52 + k) + 1)"
    using floor_log2_bounds(1)[OF xpos] xu by linarith
  then have "of_int \<lfloor>log 2 x\<rfloor> < (of_int (52 + k) + 1 :: real)" by simp
  then have "\<lfloor>log 2 x\<rfloor> \<le> 52 + k" by linarith
  then have ele: "e \<le> 52 + k" using k by (simp add: e_def)
  define j where "j = nat (k - (e - 52))"
  have j: "of_int k = (of_int (e - 52) :: real) + of_nat j" using ele by (simp add: j_def)
  have q: "quantum x = 2 powr of_int (e - 52)" by (simp add: quantum_def e_def)
  have "x / quantum x = x / 2 powr of_int (e - 52)" by (simp only: q)
  also have "\<dots> = of_int m * (2 powr of_int k / 2 powr of_int (e - 52))"
    by (simp add: x_def)
  also have "2 powr of_int k / 2 powr of_int (e - 52) = (2::real) powr (of_nat j)"
    unfolding j by (simp add: powr_add)
  also have "(2::real) powr (of_nat j) = 2 ^ j" by (simp add: powr_realpow)
  finally have "x / quantum x = of_int (m * 2 ^ j)" by simp
  then have "rne (x / quantum x) = m * 2 ^ j" by (simp only: rne_of_int)
  then have "round_mag x = of_int (m * 2 ^ j) * quantum x" by (simp add: round_mag_def)
  also have "\<dots> = (x / quantum x) * quantum x" using \<open>x / quantum x = of_int (m * 2 ^ j)\<close> by simp
  also have "\<dots> = x" using quantum_pos[of x] by simp
  finally show ?thesis by (simp add: x_def)
qed

lemma round_mag_underflow:
  assumes "0 < x" "x < 2 powr (- 1075)"
  shows "round_mag x = 0"
proof -
  have "2 powr of_int \<lfloor>log 2 x\<rfloor> < (2::real) powr (- 1075)"
    using floor_log2_bounds(1)[OF assms(1)] assms(2) by linarith
  then have "of_int \<lfloor>log 2 x\<rfloor> < (- 1075 :: real)" by simp
  then have "\<lfloor>log 2 x\<rfloor> < - 1022" by linarith
  then have q: "quantum x = 2 powr (- 1074)" by (simp add: quantum_def max_def)
  have "x / quantum x < 2 powr (- 1075) / 2 powr (- 1074)"
    using assms(2) by (simp add: q divide_strict_right_mono)
  also have "\<dots> = (2::real) powr (- 1)" by (simp add: powr_diff [symmetric])
  also have "\<dots> = 1 / 2" by (simp add: powr_minus)
  finally have lt: "x / quantum x < 1 / 2" .
  have ge: "0 \<le> x / quantum x" using assms(1) quantum_pos[of x] by simp
  have "of_int 0 \<le> x / quantum x" "x / quantum x < of_int 0 + 1" using lt ge by linarith+
  then have "\<lfloor>x / quantum x\<rfloor> = 0" by (rule floor_unique)
  then have "rne (x / quantum x) = 0" using lt by (simp add: rne_def)
  then show ?thesis by (simp add: round_mag_def)
qed

lemma fl_le_Fin: "fl_le (Fin u) (Fin v) = (u \<le> v)"
  by (auto simp: fl_le_def)

lemma fl_le_not_less: "fl_le u v \<Longrightarrow> \<not> fl_less v u"
  by (cases u; cases v) (auto simp: fl_le_def)

lemma fl_le_refl: "u \<noteq> NaN \<Longrightarrow> fl_le u u"
  by (simp add: fl_le_def)

lemma fl_le_trans: "fl_le u v \<Longrightarrow> fl_le v w \<Longrightarrow> fl_le u w"
  by (cases u; cases v; cases w) (auto simp: fl_le_def)



lemma rnd64_zero: "rnd64 0 = Fin 0"
  by (simp add: rnd64_def)

lemma rnd64_pos:
  assumes "0 < x"
  shows "rnd64 x = (if overflow_threshold \<le> round_mag x then PInf else Fin (round_mag x))"
  using assms by (simp add: rnd64_def inf_of_sign_def Let_def)

lemma rnd64_neg: "rnd64 (- x) = fl_neg (rnd64 x)"
  by (simp add: rnd64_def inf_of_sign_def Let_def sgn_if)


lemma rnd64_nonneg: "0 \<le> x \<Longrightarrow> fl_le (Fin 0) (rnd64 x)"
proof (cases "x = 0")
  case True
  then show ?thesis by (simp add: rnd64_zero fl_le_Fin)
next
  case False
  assume "0 \<le> x"
  then have "0 < x" using False by simp
  then show ?thesis using round_mag_nonneg[of x]
    by (auto simp: rnd64_pos fl_le_Fin fl_le_def)
qed

lemma fl_neg_le: "fl_le u v \<Longrightarrow> fl_le (fl_neg v) (fl_neg u)"
  by (cases u; cases v) (auto simp: fl_le_def)

lemma rnd64_mono_pos:
  assumes "0 < x" "x \<le> y"
  shows "fl_le (rnd64 x) (rnd64 y)"
proof -
  have y: "0 < y" using assms by simp
  show ?thesis using round_mag_mono[OF assms]
    by (auto simp: rnd64_pos[OF assms(1)] rnd64_pos[OF y] fl_le_Fin fl_le_def)
qed

lemma rnd64_mono:
  assumes "x \<le> y"
  shows "fl_le (rnd64 x) (rnd64 y)"
proof -
  consider "0 < x" | "x \<le> 0" "0 \<le> y" | "y < 0" by linarith
  then show ?thesis
  proof cases
    case 1
    then show ?thesis using assms by (rule rnd64_mono_pos)
  next
    case 2
    have "fl_le (rnd64 x) (Fin 0)"
      using rnd64_nonneg[of "- x"] 2(1) fl_neg_le[of "Fin 0" "rnd64 (- x)"]
      by (simp add: rnd64_neg) (cases "rnd64 x"; simp)
    then show ?thesis using rnd64_nonneg[OF 2(2)] by (rule fl_le_trans)
  next
    case 3
    have "fl_le (rnd64 (- y)) (rnd64 (- x))" using 3 assms by (intro rnd64_mono_pos) simp_all
    then have "fl_le (fl_neg (rnd64 (- x))) (fl_neg (rnd64 (- y)))" by (rule fl_neg_le)
    then show ?thesis by (simp add: rnd64_neg) (cases "rnd64 x"; cases "rnd64 y"; simp)
  qed
qed

lemma rnd64_dyadic:
  assumes "0 < m" "m < 2 ^ 53" "- 1074 \<le> k" "of_int m * 2 powr of_int k < overflow_threshold"
  shows "rnd64 (of_int m * 2 powr of_int k) = Fin (of_int m * 2 powr of_int k)"
proof -
  have pos: "0 < of_int m * (2::real) powr of_int k" using assms(1) by simp
  show ?thesis
    unfolding rnd64_pos[OF pos] round_mag_dyadic[OF assms(1-3)] using assms(4) by simp
qed

lemma rnd64_int:
  assumes "\<bar>n\<bar> < 2 ^ 53"
  shows "rnd64 (of_int n) = Fin (of_int n)"
proof -
  have big: "(2::real) ^ 53 < overflow_threshold" by (simp add: overflow_threshold_def)
  have p: "rnd64 (of_int m) = Fin (of_int m)" if "0 < m" "m < 2 ^ 53" for m
  proof -
    have "of_int m < (2::real) ^ 53" using that(2) by (metis of_int_less_numeral_power_cancel_iff)
    then have "of_int m * 2 powr of_int 0 < overflow_threshold" using big by simp
    from rnd64_dyadic[OF that _ this] show ?thesis by simp
  qed
  consider "n = 0" | "0 < n" | "n < 0" by linarith
  then show ?thesis
  proof cases
    case 1
    then show ?thesis by (simp add: rnd64_zero)
  next
    case 2
    then show ?thesis using p[of n] assms by simp
  next
    case 3
    then have "rnd64 (of_int (- n)) = Fin (of_int (- n))" using p[of "- n"] assms by simp
    then have "fl_neg (rnd64 (of_int n)) = Fin (- of_int n)" by (simp add: rnd64_neg)
    then show ?thesis by (cases "rnd64 (of_int n)") simp_all
  qed
qed

lemma rnd64_half: "rnd64 (1 / 2) = Fin (1 / 2)"
proof -
  have "of_int 1 * 2 powr of_int (- 1) < overflow_threshold"
    by (simp add: powr_minus overflow_threshold_def)
  from rnd64_dyadic[of 1 "- 1", OF _ _ _ this] show ?thesis by (simp add: powr_minus)
qed

lemma rnd64_underflow:
  assumes "0 < x" "x < 2 powr (- 1075)"
  shows "rnd64 x = Fin 0"
  unfolding rnd64_pos[OF assms(1)] round_mag_underflow[OF assms]
  by (simp add: overflow_threshold_def)

lemma rnd64_between:
  assumes "a \<le> x" "x \<le> b" "rnd64 a = Fin a" "rnd64 b = Fin b"
  shows "\<exists>y. rnd64 x = Fin y \<and> a \<le> y \<and> y \<le> b"
proof -
  have 1: "fl_le (Fin a) (rnd64 x)" using rnd64_mono[OF assms(1)] assms(3) by simp
  have 2: "fl_le (rnd64 x) (Fin b)" using rnd64_mono[OF assms(2)] assms(4) by simp
  show ?thesis using 1 2 by (cases "rnd64 x") (auto simp: fl_le_def)
qed

lemma rnd64_nonpos: "x \<le> 0 \<Longrightarrow> fl_le (rnd64 x) (Fin 0)"
  using rnd64_mono[of x 0] by (simp add: rnd64_zero)

lemma rnd64_idem:
  assumes "rnd64 x = Fin y"
  shows "rnd64 y = Fin y"
proof -
  have pos: "rnd64 (round_mag u) = Fin (round_mag u)"
    if u: "0 < u" and fin: "round_mag u < overflow_threshold" for u
  proof (cases "rne (u / quantum u) = 0")
    case True
    then show ?thesis by (simp add: round_mag_def rnd64_zero)
  next
    case False
    define e where "e = max \<lfloor>log 2 u\<rfloor> (- 1022)"
    define m where "m = rne (u / quantum u)"
    have q: "quantum u = 2 powr of_int (e - 52)" by (simp add: quantum_def e_def)
    have "0 \<le> u / quantum u" using u quantum_pos[of u] by simp
    then have "0 \<le> m" unfolding m_def by (rule rne_nonneg)
    then have mpos: "0 < m" using False by (simp add: m_def)
    have "u \<le> of_int (2 ^ 53) * quantum u"
      using below_next_power[OF u] by (simp only: quantum_mult)
    then have "u / quantum u \<le> of_int (2 ^ 53)" using quantum_pos[of u] by (simp add: pos_divide_le_eq)
    then have mle: "m \<le> 2 ^ 53" unfolding m_def using rne_mono rne_of_int by metis
    have k: "- 1074 \<le> e - 52" by (simp add: e_def)
    have rm: "round_mag u = of_int m * 2 powr of_int (e - 52)" by (simp add: round_mag_def m_def q)
    show ?thesis
    proof (cases "m = 2 ^ 53")
      case False
      then have "m < 2 ^ 53" using mle by simp
      from rnd64_dyadic[OF mpos this k] fin show ?thesis by (simp add: rm)
    next
      case True
      have "(2::real) powr of_int (e - 51) = 2 powr (1 + of_int (e - 52))" by simp
      also have "\<dots> = 2 powr 1 * 2 powr of_int (e - 52)" by (rule powr_add)
      finally have "of_int (2 ^ 52) * 2 powr of_int (e - 51) = of_int (2 ^ 53) * (2::real) powr of_int (e - 52)"
        by simp
      then have rm2: "round_mag u = of_int (2 ^ 52) * 2 powr of_int (e - 51)" using rm True by simp
      have "- 1074 \<le> e - 51" using k by simp
      from rnd64_dyadic[of "2 ^ 52" "e - 51", OF _ _ this] fin show ?thesis by (simp add: rm2)
    qed
  qed
  consider "x = 0" | "0 < x" | "x < 0" by linarith
  then show ?thesis
  proof cases
    case 1
    then show ?thesis using assms by (simp add: rnd64_zero)
  next
    case 2
    then have "round_mag x < overflow_threshold" "y = round_mag x"
      using assms by (simp_all add: rnd64_pos split: if_splits)
    then show ?thesis using pos[OF 2] by simp
  next
    case 3
    then have p: "0 < - x" by simp
    have "rnd64 (- x) = Fin (- y)" using assms by (simp add: rnd64_neg)
    then have "round_mag (- x) < overflow_threshold" "- y = round_mag (- x)"
      by (simp_all add: rnd64_pos[OF p] split: if_splits)
    then have "rnd64 (- y) = Fin (- y)" using pos[OF p] by simp
    then have "fl_neg (rnd64 y) = Fin (- y)" by (simp add: rnd64_neg)
    then show ?thesis by (cases "rnd64 y") simp_all
  qed
qed

lemma rnd64_numeral:
  assumes "(numeral w :: int) < 2 ^ 53"
  shows "rnd64 (numeral w) = Fin (numeral w)"
  using rnd64_int[of "numeral w"] assms by simp

lemma rnd64_one: "rnd64 1 = Fin 1"
  using rnd64_int[of 1] by simp

text \<open>Non-finite values stay non-finite under the operations of the curves.\<close>

lemma fl_add_not_fin: "\<forall>v. u \<noteq> Fin v \<Longrightarrow> fl_add u w \<noteq> Fin v"
  by (cases u; cases w) auto

lemma fl_mul_NInf_not_fin: "fl_mul a NInf \<noteq> Fin v"
  by (cases a) (simp_all add: inf_of_sign_def)

lemma fl_mul_NaN_right: "fl_mul a NaN = NaN"
  by (cases a) simp_all







subsection \<open>Samples of \<open>np.linspace\<close>\<close>

lemma length_linspace: "length (linspace start stop num) = num"
  by (simp add: linspace_def Let_def)

lemma linspace_nonempty: "0 < num \<Longrightarrow> linspace start stop num \<noteq> []"
  using length_linspace[of start stop num] by auto



lemma linspace_nth:
  assumes "1 < num" "i < num - 1"
  shows "linspace start stop num ! i =
           fl_add (if fl_div (fl_sub stop start) (Fin (real (num - 1))) = Fin 0
                   then fl_mul (fl_div (Fin (real i)) (Fin (real (num - 1)))) (fl_sub stop start)
                   else fl_mul (Fin (real i)) (fl_div (fl_sub stop start) (Fin (real (num - 1)))))
                  start"
  using assms by (simp add: linspace_def Let_def)

lemma fl_mul_zero_cases: "fl_mul (Fin 0) u = Fin 0 \<or> fl_mul (Fin 0) u = NaN"
  by (cases u) (simp_all add: rnd64_zero inf_of_sign_def)

lemma fl_mul_zero_fin: "fl_mul (Fin 0) (Fin t) = Fin 0"
  by (simp add: rnd64_zero)

lemma fl_add_NaN_left: "fl_add NaN u = NaN"
  by simp

text \<open>The first sample is \<open>start\<close> rounded, or NaN when the step is not finite.\<close>

lemma linspace_first_cases:
  assumes "1 < num"
  shows "linspace (Fin s) stop num ! 0 = rnd64 s \<or> linspace (Fin s) stop num ! 0 = NaN"
proof -
  have z: "fl_div (Fin (real 0)) (Fin (real (num - 1))) = Fin 0" using assms by (simp add: rnd64_zero)
  have "0 < num - 1" using assms by simp
  from linspace_nth[OF assms this, of "Fin s" stop]
  have n: "linspace (Fin s) stop num ! 0 =
           fl_add (if fl_div (fl_sub stop (Fin s)) (Fin (real (num - 1))) = Fin 0
                   then fl_mul (Fin 0) (fl_sub stop (Fin s))
                   else fl_mul (Fin 0) (fl_div (fl_sub stop (Fin s)) (Fin (real (num - 1)))))
                  (Fin s)"
    by (simp only: z) simp
  have "fl_add (fl_mul (Fin 0) u) (Fin s) = rnd64 s \<or> fl_add (fl_mul (Fin 0) u) (Fin s) = NaN" for u
    using fl_mul_zero_cases[of u] by auto
  then show ?thesis unfolding n by (simp split: if_splits)
qed

lemma linspace_first:
  assumes "0 \<le> s" "s \<le> e" "rnd64 s = Fin s" "rnd64 e = Fin e" "1 < num"
  shows "linspace (Fin s) (Fin e) num ! 0 = Fin s"
proof -
  have z: "rnd64 0 = Fin 0" by (rule rnd64_zero)
  have "0 \<le> e - s" "e - s \<le> e" using assms by simp_all
  from rnd64_between[OF this z assms(4)]
  obtain d where d: "rnd64 (e - s) = Fin d" "0 \<le> d" "d \<le> e" by blast
  have delta: "fl_sub (Fin e) (Fin s) = Fin d" using d(1) by (simp add: fl_sub_def)
  have "0 \<le> d / real (num - 1)" using d(2) by simp
  moreover have "d / real (num - 1) \<le> d"
  proof -
    have "1 \<le> real (num - 1)" using assms(5) by simp
    then show ?thesis using d(2) by (simp add: divide_le_eq mult_le_cancel_left1)
  qed
  moreover have "rnd64 d = Fin d" using d(1) by (rule rnd64_idem)
  ultimately obtain t where t: "rnd64 (d / real (num - 1)) = Fin t"
    using rnd64_between[OF _ _ z, of "d / real (num - 1)" d] by blast
  have step: "fl_div (Fin d) (Fin (real (num - 1))) = Fin t" using t assms(5) by simp
  have z2: "fl_div (Fin (real 0)) (Fin (real (num - 1))) = Fin 0" using assms(5) by (simp add: rnd64_zero)
  have "0 < num - 1" using assms(5) by simp
  from linspace_nth[OF assms(5) this, of "Fin s" "Fin e"]
  show ?thesis unfolding delta step z2 using assms(3) by (simp add: rnd64_zero)
qed

lemma hd_linspace: "0 < num \<Longrightarrow> hd (linspace start stop num) = linspace start stop num ! 0"
  using linspace_nonempty[of num start stop] by (simp add: hd_conv_nth)

subsection \<open>The equation parsers\<close>

lemmas parse_eval = parse_log_equation_def parse_linear_equation_def parse_equation_def
  match_eq_at_def skip_ws_def take_num_def py_float_def unsigned_float_def digits_val_def
  digit_val_def is_space_def is_digit_def is_numch_def Let_def

text \<open>
  Claim C1.  The claim: for every input string, parsing returns coefficients or
  "absent", and a token that matches the numeric class without being a number makes
  the match fail with "absent", never an exception.  The parsers do otherwise: on
  the tokens \<open>1.2.3\<close>, \<open>--5\<close>, a lone \<open>-\<close> and a lone \<open>.\<close> the pattern matches and
  \<open>float\<close> raises ValueError.
\<close>

theorem parse_raises_on_invalid_token:
  "parse_log_equation (CStr ''y = 1.2.3 * ln(x) + 4'') = Inl ValueError
   \<and> parse_log_equation (CStr ''y = 2 * ln(x) + --5'') = Inl ValueError
   \<and> parse_linear_equation (CStr ''y = - * x + 3'') = Inl ValueError
   \<and> parse_linear_equation (CStr ''y = 2 * x + .'') = Inl ValueError"
  by (simp add: parse_eval)

lemma skip_ws_append:
  assumes "list_all is_space w" "r = [] \<or> \<not> is_space (hd r)"
  shows "skip_ws (w @ r) = r"
  using assms by (induction w) (auto simp: skip_ws_def dropWhile_eq_self_iff)

lemma expect_str_append: "expect_str a (a @ r) = Some r"
  by (induction a) auto

lemma numch_not_space: "is_numch c \<Longrightarrow> \<not> is_space c"
  by (auto simp: is_numch_def is_space_def is_digit_def Let_def)

lemma take_num_token:
  assumes "is_token g" "r = [] \<or> \<not> is_numch (hd r)"
  shows "take_num (g @ r) = Some (g, r)"
proof -
  have a: "\<forall>x\<in>set g. is_numch x" using assms(1) by (simp add: is_token_def list_all_iff)
  have "takeWhile is_numch (g @ r) = g @ takeWhile is_numch r"
    using a by (simp add: takeWhile_append2)
  moreover have "dropWhile is_numch (g @ r) = dropWhile is_numch r"
    using a by (simp add: dropWhile_append2)
  moreover have "takeWhile is_numch r = []" "dropWhile is_numch r = r"
    using assms(2) by (cases r; auto)+
  ultimately show ?thesis using assms(1) by (simp add: take_num_def is_token_def)
qed

lemma take_num_last_token:
  assumes "is_token g"
  shows "take_num (g @ r) = Some (g @ takeWhile is_numch r, dropWhile is_numch r)"
proof -
  have a: "\<forall>x\<in>set g. is_numch x" using assms(1) by (simp add: is_token_def list_all_iff)
  show ?thesis using a assms
    by (simp add: take_num_def is_token_def takeWhile_append2 dropWhile_append2)
qed

lemma token_hd: "is_token g \<Longrightarrow> \<not> is_space (hd (g @ r))"
  by (cases g) (auto simp: is_token_def numch_not_space)

lemma ws_then_char:
  assumes "list_all is_space w" "\<not> is_numch c" 
  shows "w @ c # r = [] \<or> \<not> is_numch (hd (w @ c # r))"
  using assms by (cases w) (auto dest: numch_not_space)


lemma match_eq_at_language:
  assumes ws: "list_all is_space w1" "list_all is_space w2" "list_all is_space w3"
              "list_all is_space w4" "list_all is_space w5" "list_all is_space w6"
    and toks: "is_token g1" "is_token g2"
    and mid: "mid \<noteq> []" "\<not> is_space (hd mid)"
  shows "match_eq_at mid (''y'' @ w1 @ ''='' @ w2 @ g1 @ w3 @ ''*'' @ w4 @ mid @ w5 @ ''+'' @ w6 @ g2 @ post)
         = Some (g1, g2 @ takeWhile is_numch post)"
proof -
  let ?s7 = "g2 @ post"
  let ?s6 = "''+'' @ w6 @ ?s7"
  let ?s5 = "mid @ w5 @ ?s6"
  let ?s4 = "''*'' @ w4 @ ?s5"
  let ?s3 = "g1 @ w3 @ ?s4"
  let ?s2 = "''='' @ w2 @ ?s3"
  have e1: "expect_str ''y'' (''y'' @ w1 @ ?s2) = Some (w1 @ ?s2)"
    by (rule expect_str_append)
  have k1: "skip_ws (w1 @ ?s2) = ?s2"
    by (rule skip_ws_append[OF ws(1)]) (simp add: is_space_def)
  have e2: "expect_str ''='' ?s2 = Some (w2 @ ?s3)"
    by (rule expect_str_append)
  have k2: "skip_ws (w2 @ ?s3) = ?s3"
    by (rule skip_ws_append[OF ws(2)]) (use token_hd[OF toks(1)] in simp)
  have n1: "take_num ?s3 = Some (g1, w3 @ ?s4)"
    by (rule take_num_token[OF toks(1)])
       (use ws_then_char[OF ws(3), of "CHR ''*''"] in \<open>simp add: is_numch_def is_digit_def\<close>)
  have k3: "skip_ws (w3 @ ?s4) = ?s4"
    by (rule skip_ws_append[OF ws(3)]) (simp add: is_space_def)
  have e3: "expect_str ''*'' ?s4 = Some (w4 @ ?s5)"
    by (rule expect_str_append)
  have k4: "skip_ws (w4 @ ?s5) = ?s5"
    by (rule skip_ws_append[OF ws(4)]) (use mid in simp)
  have e4: "expect_str mid ?s5 = Some (w5 @ ?s6)"
    by (rule expect_str_append)
  have k5: "skip_ws (w5 @ ?s6) = ?s6"
    by (rule skip_ws_append[OF ws(5)]) (simp add: is_space_def)
  have e5: "expect_str ''+'' ?s6 = Some (w6 @ ?s7)"
    by (rule expect_str_append)
  have k6: "skip_ws (w6 @ ?s7) = ?s7"
    by (rule skip_ws_append[OF ws(6)]) (use token_hd[OF toks(2)] in simp)
  have n2: "take_num ?s7 = Some (g2 @ takeWhile is_numch post, dropWhile is_numch post)"
    by (rule take_num_last_token[OF toks(2)])
  show ?thesis
    unfolding match_eq_at_def e1 option.case k1 e2 k2 n1 prod.case k3 e3 k4 e4 k5 e5 k6 n2
    by (rule refl)
qed

lemma re_search_leftmost:
  "re_search m s = Some r \<longleftrightarrow>
     (\<exists>k\<le>length s. m (drop k s) = Some r \<and> (\<forall>j<k. m (drop j s) = None))"
proof (induction s)
  case Nil
  then show ?case by simp
next
  case (Cons c cs)
  show ?case
  proof (cases "m (c # cs)")
    case (Some r')
    have "(\<exists>k\<le>length (c # cs). m (drop k (c # cs)) = Some r \<and> (\<forall>j<k. m (drop j (c # cs)) = None))
          \<longleftrightarrow> r' = r"
    proof
      assume "\<exists>k\<le>length (c # cs). m (drop k (c # cs)) = Some r \<and> (\<forall>j<k. m (drop j (c # cs)) = None)"
      then obtain k where k: "m (drop k (c # cs)) = Some r" "\<forall>j<k. m (drop j (c # cs)) = None"
        by blast
      have "k = 0"
      proof (rule ccontr)
        assume "k \<noteq> 0"
        then have "m (drop 0 (c # cs)) = None" using k(2) by blast
        then show False using Some by simp
      qed
      then show "r' = r" using k(1) Some by simp
    next
      assume "r' = r"
      then have "m (drop 0 (c # cs)) = Some r \<and> (\<forall>j<0. m (drop j (c # cs)) = None)"
        using Some by simp
      then show "\<exists>k\<le>length (c # cs). m (drop k (c # cs)) = Some r \<and> (\<forall>j<k. m (drop j (c # cs)) = None)"
        by blast
    qed
    then show ?thesis using Some by simp
  next
    case None
    have "(\<exists>k\<le>length (c # cs). m (drop k (c # cs)) = Some r \<and> (\<forall>j<k. m (drop j (c # cs)) = None))
          \<longleftrightarrow> (\<exists>k\<le>length cs. m (drop k cs) = Some r \<and> (\<forall>j<k. m (drop j cs) = None))"
      (is "?L \<longleftrightarrow> ?R")
    proof
      assume ?L
      then obtain k where k: "k \<le> length (c # cs)" "m (drop k (c # cs)) = Some r"
        "\<forall>j<k. m (drop j (c # cs)) = None" by blast
      then have "k \<noteq> 0" using None by (cases k) auto
      then obtain k' where k': "k = Suc k'" by (cases k) auto
      have "\<forall>j<k'. m (drop j cs) = None"
      proof (intro allI impI)
        fix j assume "j < k'"
        then have "Suc j < k" using k' by simp
        then have "m (drop (Suc j) (c # cs)) = None" using k(3) by blast
        then show "m (drop j cs) = None" by simp
      qed
      then show ?R using k k' by auto
    next
      assume ?R
      then obtain k where k: "k \<le> length cs" "m (drop k cs) = Some r"
        "\<forall>j<k. m (drop j cs) = None" by blast
      have "\<forall>j<Suc k. m (drop j (c # cs)) = None"
      proof (intro allI impI)
        fix j assume j: "j < Suc k"
        show "m (drop j (c # cs)) = None"
        proof (cases j)
          case 0
          then show ?thesis using None by simp
        next
          case (Suc j')
          then show ?thesis using j k(3) by simp
        qed
      qed
      then have "Suc k \<le> length (c # cs) \<and> m (drop (Suc k) (c # cs)) = Some r
                 \<and> (\<forall>j<Suc k. m (drop j (c # cs)) = None)"
        using k by simp
      then show ?L by blast
    qed
    then show ?thesis using None Cons.IH by simp
  qed
qed

lemma re_search_finds:
  assumes "m s = Some r"
  shows "\<exists>k r'. k \<le> length pre \<and> m (drop k (pre @ s)) = Some r'
               \<and> (\<forall>j<k. m (drop j (pre @ s)) = None)
               \<and> re_search m (pre @ s) = Some r'"
proof -
  define P where "P k = (m (drop k (pre @ s)) \<noteq> None)" for k
  have "P (length pre)" using assms by (simp add: P_def)
  then have ex: "\<exists>k. P k" by blast
  define k where "k = (LEAST k. P k)"
  have pk: "P k" unfolding k_def using ex by (rule LeastI_ex)
  have kle: "k \<le> length pre" unfolding k_def using \<open>P (length pre)\<close> by (rule Least_le)
  have lt: "\<not> P j" if "j < k" for j using that not_less_Least unfolding k_def by blast
  obtain r' where r': "m (drop k (pre @ s)) = Some r'" using pk by (auto simp: P_def)
  have none: "\<forall>j<k. m (drop j (pre @ s)) = None" using lt by (simp add: P_def)
  have "k \<le> length (pre @ s)" using kle by simp
  then have "re_search m (pre @ s) = Some r'"
    using r' none re_search_leftmost[of m "pre @ s" r'] by blast
  then show ?thesis using kle r' none by blast
qed


lemma parse_equation_leftmost:
  assumes m: "matches_pattern mid m" and mid: "mid \<noteq> []" "\<not> is_space (hd mid)"
  shows "\<exists>k g1 g2. k \<le> length pre
           \<and> (\<forall>j<k. match_eq_at mid (drop j (pre @ m @ post)) = None)
           \<and> match_eq_at mid (drop k (pre @ m @ post)) = Some (g1, g2)
           \<and> (\<forall>a b. py_float g1 = Inr a \<and> py_float g2 = Inr b
                  \<longrightarrow> parse_equation mid (CStr (pre @ m @ post)) = Inr (Some (a, b)))"
proof -
  obtain w1 w2 g1 w3 w4 w5 w6 g2 where
    eq: "m = ''y'' @ w1 @ ''='' @ w2 @ g1 @ w3 @ ''*'' @ w4 @ mid @ w5 @ ''+'' @ w6 @ g2"
    and ws: "list_all is_space w1" "list_all is_space w2" "list_all is_space w3"
            "list_all is_space w4" "list_all is_space w5" "list_all is_space w6"
    and toks: "is_token g1" "is_token g2"
    using m unfolding matches_pattern_def by blast
  have "match_eq_at mid (m @ post) = Some (g1, g2 @ takeWhile is_numch post)"
    using match_eq_at_language[OF ws toks mid, of post] by (simp add: eq)
  from re_search_finds[of "match_eq_at mid" "m @ post" _ pre, OF this]
  obtain k r where k: "k \<le> length pre" "match_eq_at mid (drop k (pre @ m @ post)) = Some r"
    "\<forall>j<k. match_eq_at mid (drop j (pre @ m @ post)) = None"
    "re_search (match_eq_at mid) (pre @ m @ post) = Some r" by blast
  obtain h1 h2 where r: "r = (h1, h2)" by (cases r)
  have "parse_equation mid (CStr (pre @ m @ post)) = Inr (Some (a, b))"
    if "py_float h1 = Inr a \<and> py_float h2 = Inr b" for a b
    using that k(4) r by (simp add: parse_equation_def)
  then show ?thesis using k r by blast
qed

text \<open>
  The parsers search for the pattern anywhere in the string: whenever the input
  is any text, then a string of the pattern's language, then any text, a leftmost
  match exists and starts no later than that occurrence, and when both of its
  tokens are valid numbers the parser returns exactly those two coefficients.
\<close>

theorem parse_returns_leftmost_match:
  "(matches_pattern ''ln(x)'' m \<longrightarrow>
      (\<exists>k g1 g2. k \<le> length pre
         \<and> (\<forall>j<k. match_eq_at ''ln(x)'' (drop j (pre @ m @ post)) = None)
         \<and> match_eq_at ''ln(x)'' (drop k (pre @ m @ post)) = Some (g1, g2)
         \<and> (\<forall>a b. py_float g1 = Inr a \<and> py_float g2 = Inr b
                \<longrightarrow> parse_log_equation (CStr (pre @ m @ post)) = Inr (Some (a, b)))))
   \<and> (matches_pattern ''x'' m \<longrightarrow>
      (\<exists>k g1 g2. k \<le> length pre
         \<and> (\<forall>j<k. match_eq_at ''x'' (drop j (pre @ m @ post)) = None)
         \<and> match_eq_at ''x'' (drop k (pre @ m @ post)) = Some (g1, g2)
         \<and> (\<forall>a b. py_float g1 = Inr a \<and> py_float g2 = Inr b
                \<longrightarrow> parse_linear_equation (CStr (pre @ m @ post)) = Inr (Some (a, b)))))"
proof (intro conjI impI)
  assume "matches_pattern ''ln(x)'' m"
  then show "\<exists>k g1 g2. k \<le> length pre
         \<and> (\<forall>j<k. match_eq_at ''ln(x)'' (drop j (pre @ m @ post)) = None)
         \<and> match_eq_at ''ln(x)'' (drop k (pre @ m @ post)) = Some (g1, g2)
         \<and> (\<forall>a b. py_float g1 = Inr a \<and> py_float g2 = Inr b
                \<longrightarrow> parse_log_equation (CStr (pre @ m @ post)) = Inr (Some (a, b)))"
    unfolding parse_log_equation_def
    by (rule parse_equation_leftmost) (simp_all add: is_space_def)
next
  assume "matches_pattern ''x'' m"
  then show "\<exists>k g1 g2. k \<le> length pre
         \<and> (\<forall>j<k. match_eq_at ''x'' (drop j (pre @ m @ post)) = None)
         \<and> match_eq_at ''x'' (drop k (pre @ m @ post)) = Some (g1, g2)
         \<and> (\<forall>a b. py_float g1 = Inr a \<and> py_float g2 = Inr b
                \<longrightarrow> parse_linear_equation (CStr (pre @ m @ post)) = Inr (Some (a, b)))"
    unfolding parse_linear_equation_def
    by (rule parse_equation_leftmost) (simp_all add: is_space_def)
qed

lemma matches_log_example: "matches_pattern ''ln(x)'' ''y = 2 * ln(x) + 3''"
  unfolding matches_pattern_def
  by (rule exI[of _ "'' ''"], rule exI[of _ "'' ''"], rule exI[of _ "''2''"],
      rule exI[of _ "'' ''"], rule exI[of _ "'' ''"], rule exI[of _ "'' ''"],
      rule exI[of _ "'' ''"], rule exI[of _ "''3''"])
     (simp add: is_token_def is_space_def is_numch_def is_digit_def)

lemma matches_lin_example: "matches_pattern ''x'' ''y = 2 * x + 3''"
  unfolding matches_pattern_def
  by (rule exI[of _ "'' ''"], rule exI[of _ "'' ''"], rule exI[of _ "''2''"],
      rule exI[of _ "'' ''"], rule exI[of _ "'' ''"], rule exI[of _ "'' ''"],
      rule exI[of _ "'' ''"], rule exI[of _ "''3''"])
     (simp add: is_token_def is_space_def is_numch_def is_digit_def)

theorem parse_returns_leftmost_match_witness:
  "matches_pattern ''ln(x)'' ''y = 2 * ln(x) + 3''
   \<and> matches_pattern ''x'' ''y = 2 * x + 3''
   \<and> (\<exists>k g1 g2. k \<le> length ''note: ''
         \<and> (\<forall>j<k. match_eq_at ''ln(x)'' (drop j (''note: '' @ ''y = 2 * ln(x) + 3'' @ '' (approx)'')) = None)
         \<and> match_eq_at ''ln(x)'' (drop k (''note: '' @ ''y = 2 * ln(x) + 3'' @ '' (approx)'')) = Some (g1, g2)
         \<and> (\<forall>a b. py_float g1 = Inr a \<and> py_float g2 = Inr b
                \<longrightarrow> parse_log_equation (CStr (''note: '' @ ''y = 2 * ln(x) + 3'' @ '' (approx)'')) = Inr (Some (a, b))))
   \<and> (\<exists>k g1 g2. k \<le> length ''note: ''
         \<and> (\<forall>j<k. match_eq_at ''x'' (drop j (''note: '' @ ''y = 2 * x + 3'' @ '' (approx)'')) = None)
         \<and> match_eq_at ''x'' (drop k (''note: '' @ ''y = 2 * x + 3'' @ '' (approx)'')) = Some (g1, g2)
         \<and> (\<forall>a b. py_float g1 = Inr a \<and> py_float g2 = Inr b
                \<longrightarrow> parse_linear_equation (CStr (''note: '' @ ''y = 2 * x + 3'' @ '' (approx)'')) = Inr (Some (a, b))))"
  using parse_returns_leftmost_match[of "''y = 2 * ln(x) + 3''" "''note: ''" "'' (approx)''"]
        parse_returns_leftmost_match[of "''y = 2 * x + 3''" "''note: ''" "'' (approx)''"]
        matches_log_example matches_lin_example
  by blast

lemma matches_bad_example: "matches_pattern ''ln(x)'' ''y = 1.2.3 * ln(x) + 4''"
  unfolding matches_pattern_def
  by (rule exI[of _ "'' ''"], rule exI[of _ "'' ''"], rule exI[of _ "''1.2.3''"],
      rule exI[of _ "'' ''"], rule exI[of _ "'' ''"], rule exI[of _ "'' ''"],
      rule exI[of _ "'' ''"], rule exI[of _ "''4''"])
     (simp add: is_token_def is_space_def is_numch_def is_digit_def)

text \<open>
  Claim C10.  The claim: on every string that contains the pattern anywhere,
  parsing succeeds and returns the coefficients of the first occurrence.  The match
  is indeed found by search inside surrounding text, but where its token is not a
  number the parser raises ValueError instead of returning: the same missed case of
  \<open>float\<close> as in claim C1.
\<close>

theorem parse_substring_raises:
  "matches_pattern ''ln(x)'' ''y = 1.2.3 * ln(x) + 4''
   \<and> parse_log_equation (CStr (''note: '' @ ''y = 1.2.3 * ln(x) + 4'' @ '' (approx)'')) = Inl ValueError"
  using matches_bad_example by (simp add: parse_eval)

lemma parse_example_value:
  "parse_log_equation (CStr ''note: y = 2 * ln(x) + 3 (approx)'') = Inr (Some (Fin 2, Fin 3))"
  by (simp add: parse_eval rnd64_numeral)

subsection \<open>The observed acquisition series\<close>

lemma uu_model_length: "length (uu_model m a b xs) = length xs"
  by (cases m) (simp_all add: uu_model_def uu_log_def uu_lin_def)









subsection \<open>The cost chart\<close>

lemma ncpa_log_block_CFloat:
  "ncpa_log_block gt se brand color (CFloat r2) a b x_min x_max all_x_max =
     (if fl_less (ncpa_x_start a b x_min) x_max
      then Inr (ncpa_observed gt Logarithmic brand color r2 a b (ncpa_x_start a b x_min) x_max #
                (if se \<and> fl_less x_max all_x_max
                 then [ncpa_extrapolated Logarithmic brand color a b x_max all_x_max] else []))
      else Inr [])"
  by (simp add: ncpa_log_block_def Let_def bind_err_def format_r2_def)

lemma ncpa_log_block_Inr:
  assumes "ncpa_log_block gt se brand color r2 a b x_min x_max all_x_max = Inr ts"
  shows "\<exists>r2v. ts = (if fl_less (ncpa_x_start a b x_min) x_max
                     then ncpa_observed gt Logarithmic brand color r2v a b (ncpa_x_start a b x_min) x_max #
                          (if se \<and> fl_less x_max all_x_max
                           then [ncpa_extrapolated Logarithmic brand color a b x_max all_x_max] else [])
                     else [])"
proof (cases r2)
  case (CStr s)
  then show ?thesis using assms
    by (auto simp: ncpa_log_block_def Let_def bind_err_def format_r2_def split: if_splits)
next
  case (CFloat v)
  then show ?thesis using assms
    by (auto simp: ncpa_log_block_CFloat split: if_splits)
qed

lemma ncpa_log_block_cases:
  assumes "ncpa_log_block gt se brand color r2 a b x_min x_max all_x_max = Inr ts"
  shows "ts = [] \<or>
         (\<exists>r2v. ts = ncpa_observed gt Logarithmic brand color r2v a b (ncpa_x_start a b x_min) x_max #
                (if se \<and> fl_less x_max all_x_max
                 then [ncpa_extrapolated Logarithmic brand color a b x_max all_x_max] else []))"
  using ncpa_log_block_Inr[OF assms] by (auto split: if_splits)

lemma ncpa_lin_block_cases:
  assumes "ncpa_lin_block gt se brand color r2 a b x_min x_max all_x_max = Inr ts"
  shows "\<exists>r2v. ts = ncpa_observed gt Linear brand color r2v a b x_min x_max #
                (if se \<and> fl_less x_max all_x_max
                 then [ncpa_extrapolated Linear brand color a b x_max all_x_max] else [])"
  using assms
  by (cases r2) (auto simp: ncpa_lin_block_def bind_err_def format_r2_def)

lemma ncpa_values_nth:
  assumes "i < length xs" "length uu = length xs"
  shows "ncpa_values xs uu ! i = (if fl_less (Fin 0) (uu ! i) then fl_div (xs ! i) (uu ! i) else NaN)"
  using assms by (simp add: ncpa_values_def)

lemma ncpa_values_length: "length uu = length xs \<Longrightarrow> length (ncpa_values xs uu) = length xs"
  by (simp add: ncpa_values_def)

lemma ncpa_observed_y:
  "tr_y (ncpa_observed gt m brand color r2 a b lo hi)
   = ncpa_values (tr_x (ncpa_observed gt m brand color r2 a b lo hi))
       (uu_model m a b (tr_x (ncpa_observed gt m brand color r2 a b lo hi)))"
  by (simp add: ncpa_observed_def)

lemma ncpa_extrapolated_y:
  "tr_y (ncpa_extrapolated m brand color a b lo hi)
   = ncpa_values (tr_x (ncpa_extrapolated m brand color a b lo hi))
       (uu_model m a b (tr_x (ncpa_extrapolated m brand color a b lo hi)))"
  by (simp add: ncpa_extrapolated_def)

lemma ncpa_log_block_y:
  assumes "ncpa_log_block gt se brand color r2 a b x_min x_max all_x_max = Inr ts" "t \<in> set ts"
  shows "tr_y t = ncpa_values (tr_x t) (uu_model Logarithmic a b (tr_x t))"
  using ncpa_log_block_cases[OF assms(1)] assms(2)
  by (auto simp: ncpa_observed_y ncpa_extrapolated_y split: if_splits)

lemma ncpa_lin_block_y:
  assumes "ncpa_lin_block gt se brand color r2 a b x_min x_max all_x_max = Inr ts" "t \<in> set ts"
  shows "tr_y t = ncpa_values (tr_x t) (uu_model Linear a b (tr_x t))"
  using ncpa_lin_block_cases[OF assms(1)] assms(2)
  by (auto simp: ncpa_observed_y ncpa_extrapolated_y split: if_splits)

lemma ncpa_values_undefined:
  assumes "i < length xs" "length uu = length xs" "fl_le (uu ! i) (Fin 0)"
  shows "ncpa_values xs uu ! i = NaN"
  using assms fl_le_not_less[OF assms(3)] by (simp add: ncpa_values_nth)

text \<open>
  Claim C6.  In every series of the cost chart, logarithmic or linear, observed or
  extrapolated: a sample whose denominator \<open>a * ln x + b\<close> (or \<open>a * x + b\<close>) is at
  most zero has the y value NaN, never a number.
\<close>

theorem ncpa_undefined_on_nonpositive_denominator:
  "(ncpa_log_block gt se brand color r2 a b x_min x_max all_x_max = Inr ts \<and> t \<in> set ts
      \<and> i < length (tr_x t)
      \<and> fl_le (fl_add (fl_mul a (np_log (tr_x t ! i))) b) (Fin 0)
    \<longrightarrow> length (tr_y t) = length (tr_x t) \<and> tr_y t ! i = NaN)
   \<and> (ncpa_lin_block gt se brand color r2 a b x_min x_max all_x_max = Inr ts \<and> t \<in> set ts
      \<and> i < length (tr_x t)
      \<and> fl_le (fl_add (fl_mul a (tr_x t ! i)) b) (Fin 0)
    \<longrightarrow> length (tr_y t) = length (tr_x t) \<and> tr_y t ! i = NaN)"
proof (intro conjI impI)
  assume h: "ncpa_log_block gt se brand color r2 a b x_min x_max all_x_max = Inr ts \<and> t \<in> set ts
      \<and> i < length (tr_x t)
      \<and> fl_le (fl_add (fl_mul a (np_log (tr_x t ! i))) b) (Fin 0)"
  then have y: "tr_y t = ncpa_values (tr_x t) (uu_model Logarithmic a b (tr_x t))"
    using ncpa_log_block_y by blast
  have d: "uu_model Logarithmic a b (tr_x t) ! i = fl_add (fl_mul a (np_log (tr_x t ! i))) b"
    using h by (simp add: uu_model_def uu_log_def)
  show "length (tr_y t) = length (tr_x t)" by (simp add: y ncpa_values_length uu_model_length)
  show "tr_y t ! i = NaN"
    unfolding y using h d by (intro ncpa_values_undefined) (simp_all add: uu_model_length)
next
  assume h: "ncpa_lin_block gt se brand color r2 a b x_min x_max all_x_max = Inr ts \<and> t \<in> set ts
      \<and> i < length (tr_x t)
      \<and> fl_le (fl_add (fl_mul a (tr_x t ! i)) b) (Fin 0)"
  then have y: "tr_y t = ncpa_values (tr_x t) (uu_model Linear a b (tr_x t))"
    using ncpa_lin_block_y by blast
  have d: "uu_model Linear a b (tr_x t) ! i = fl_add (fl_mul a (tr_x t ! i)) b"
    using h by (simp add: uu_model_def uu_lin_def)
  show "length (tr_y t) = length (tr_x t)" by (simp add: y ncpa_values_length uu_model_length)
  show "tr_y t ! i = NaN"
    unfolding y using h d by (intro ncpa_values_undefined) (simp_all add: uu_model_length)
qed

lemma ncpa_x_start_nonpositive: "fl_le a (Fin 0) \<Longrightarrow> ncpa_x_start a b x_min = x_min"
  by (simp add: ncpa_x_start_def find_ncpa_minimum_log_def)

lemma rnd64_minus_one: "rnd64 (- 1) = Fin (- 1)"
  using rnd64_neg[of 1] by (simp add: rnd64_one)

theorem ncpa_undefined_on_nonpositive_denominator_witness:
  "ncpa_log_block LogOnly False (CStr ''A'') 0 (CFloat (Fin 0.5)) (Fin (- 1)) (Fin 0) (Fin 1) (Fin 2) (Fin 3)
     = Inr [ncpa_observed LogOnly Logarithmic (CStr ''A'') 0 (Fin 0.5) (Fin (- 1)) (Fin 0) (Fin 1) (Fin 2)]
   \<and> tr_x (ncpa_observed LogOnly Logarithmic (CStr ''A'') 0 (Fin 0.5) (Fin (- 1)) (Fin 0) (Fin 1) (Fin 2)) ! 0 = Fin 1
   \<and> fl_le (fl_add (fl_mul (Fin (- 1)) (np_log (Fin 1))) (Fin 0)) (Fin 0)
   \<and> tr_y (ncpa_observed LogOnly Logarithmic (CStr ''A'') 0 (Fin 0.5) (Fin (- 1)) (Fin 0) (Fin 1) (Fin 2)) ! 0 = NaN
   \<and> ncpa_lin_block LinOnly False (CStr ''A'') 0 (CFloat (Fin 0.5)) (Fin (- 1)) (Fin 0) (Fin 1) (Fin 2) (Fin 3)
     = Inr [ncpa_observed LinOnly Linear (CStr ''A'') 0 (Fin 0.5) (Fin (- 1)) (Fin 0) (Fin 1) (Fin 2)]
   \<and> fl_le (fl_add (fl_mul (Fin (- 1)) (Fin 1)) (Fin 0)) (Fin 0)
   \<and> tr_y (ncpa_observed LinOnly Linear (CStr ''A'') 0 (Fin 0.5) (Fin (- 1)) (Fin 0) (Fin 1) (Fin 2)) ! 0 = NaN"
proof -
  let ?t = "ncpa_observed LogOnly Logarithmic (CStr ''A'') 0 (Fin 0.5) (Fin (- 1)) (Fin 0) (Fin 1) (Fin 2)"
  let ?u = "ncpa_observed LinOnly Linear (CStr ''A'') 0 (Fin 0.5) (Fin (- 1)) (Fin 0) (Fin 1) (Fin 2)"
  have s: "ncpa_x_start (Fin (- 1)) (Fin 0) (Fin 1) = Fin 1"
    by (rule ncpa_x_start_nonpositive) (simp add: fl_le_Fin)
  have b1: "ncpa_log_block LogOnly False (CStr ''A'') 0 (CFloat (Fin 0.5)) (Fin (- 1)) (Fin 0) (Fin 1) (Fin 2) (Fin 3)
     = Inr [?t]"
    by (simp add: ncpa_log_block_CFloat s)
  have b2: "ncpa_lin_block LinOnly False (CStr ''A'') 0 (CFloat (Fin 0.5)) (Fin (- 1)) (Fin 0) (Fin 1) (Fin 2) (Fin 3)
     = Inr [?u]"
    by (simp add: ncpa_lin_block_def bind_err_def format_r2_def)
  have f: "linspace (Fin 1) (Fin 2) 300 ! 0 = Fin 1"
    by (rule linspace_first) (simp_all add: rnd64_one rnd64_numeral)
  have x1: "tr_x ?t ! 0 = Fin 1" and x2: "tr_x ?u ! 0 = Fin 1"
    using f by (simp_all add: ncpa_observed_def)
  have l1: "0 < length (tr_x ?t)" and l2: "0 < length (tr_x ?u)"
    by (simp_all add: ncpa_observed_def length_linspace)
  have d1: "fl_le (fl_add (fl_mul (Fin (- 1)) (np_log (Fin 1))) (Fin 0)) (Fin 0)"
    by (simp add: fl_le_Fin rnd64_zero)
  have d2: "fl_le (fl_add (fl_mul (Fin (- 1)) (Fin 1)) (Fin 0)) (Fin 0)"
    by (simp add: fl_le_Fin rnd64_minus_one)
  have y1: "tr_y ?t ! 0 = NaN"
    using ncpa_undefined_on_nonpositive_denominator[of LogOnly False "CStr ''A''" 0
        "CFloat (Fin 0.5)" "Fin (- 1)" "Fin 0" "Fin 1" "Fin 2" "Fin 3" "[?t]" ?t 0] b1 l1 d1 x1
    by simp
  have y2: "tr_y ?u ! 0 = NaN"
    using ncpa_undefined_on_nonpositive_denominator[of LinOnly False "CStr ''A''" 0
        "CFloat (Fin 0.5)" "Fin (- 1)" "Fin 0" "Fin 1" "Fin 2" "Fin 3" "[?u]" ?u 0] b2 l2 d2 x2
    by simp
  show ?thesis using b1 x1 d1 y1 b2 d2 y2 by blast
qed

text \<open>How a figure is put together from its rows, and a row from its two blocks.\<close>

lemma map_err_Inr:
  "map_err f xs = Inr ys \<Longrightarrow> length ys = length xs \<and> (\<forall>i<length xs. f (xs ! i) = Inr (ys ! i))"
proof (induction xs arbitrary: ys)
  case Nil
  then show ?case by simp
next
  case (Cons x xs)
  from Cons.prems obtain y ys' where y: "f x = Inr y" "map_err f xs = Inr ys'" "ys = y # ys'"
    by (auto split: sum.splits)
  from Cons.IH[OF y(2)] have ih: "length ys' = length xs" "\<forall>i<length xs. f (xs ! i) = Inr (ys' ! i)"
    by simp_all
  show ?case
  proof (intro conjI allI impI)
    show "length ys = length (x # xs)" using y ih by simp
    fix i assume "i < length (x # xs)"
    then show "f ((x # xs) ! i) = Inr (ys ! i)" using y ih by (cases i) simp_all
  qed
qed

lemma generate_ncpa_graph_rows:
  assumes "generate_ncpa_graph df gt se ratio = Inr ts"
  shows "\<exists>maxs tss.
           map_err as_float (map (\<lambda>row. row XMax) (df_rows df)) = Inr maxs
         \<and> length tss = length (df_rows df)
         \<and> ts = concat tss
         \<and> (\<forall>i<length (df_rows df).
               ncpa_row gt se (df_columns df) (fl_mul (series_max maxs) (Fin ratio))
                 (i, df_rows df ! i) = Inr (tss ! i))"
proof -
  from assms obtain maxs tss where
    g: "map_err as_float (map (\<lambda>row. row XMax) (df_rows df)) = Inr maxs"
       "map_err (ncpa_row gt se (df_columns df) (fl_mul (series_max maxs) (Fin ratio)))
          (enumerate 0 (df_rows df)) = Inr tss"
       "ts = concat tss"
    by (auto simp: generate_ncpa_graph_def bind_err_def df_col_def split: sum.splits if_splits)
  from map_err_Inr[OF g(2)] have
    "length tss = length (df_rows df)"
    "\<forall>i<length (df_rows df).
       ncpa_row gt se (df_columns df) (fl_mul (series_max maxs) (Fin ratio))
         (enumerate 0 (df_rows df) ! i) = Inr (tss ! i)"
    by simp_all
  then show ?thesis using g(1,3) by (auto simp: nth_enumerate_eq)
qed

lemma ncpa_part_model:
  assumes "ncpa_part gt m se cols row brand color x_min x_max all_x_max = Inr ts" "t \<in> set ts"
  shows "tr_model t = m \<and> tr_region t \<noteq> ExtrapolatedLow"
proof (cases "shows_model gt m")
  case False
  then show ?thesis using assms by (simp add: ncpa_part_def)
next
  case True
  from assms(1) True obtain eq co r2 where
    s: "row_get cols row (eq_column m) = Inr eq" "parse_model m eq = Inr co"
       "row_get cols row (r2_column m) = Inr r2"
    by (auto simp: ncpa_part_def bind_err_def split: sum.splits)
  show ?thesis
  proof (cases co)
    case None
    then show ?thesis using assms True s by (simp add: ncpa_part_def bind_err_def)
  next
    case (Some ab)
    obtain a b where ab: "ab = (a, b)" by (cases ab)
    from assms(1) True s Some ab obtain xmin xmax where
      blk: "(case m of
               Logarithmic \<Rightarrow> ncpa_log_block gt se brand color r2 a b xmin xmax all_x_max
             | Linear \<Rightarrow> ncpa_lin_block gt se brand color r2 a b xmin xmax all_x_max) = Inr ts"
      by (auto simp: ncpa_part_def bind_err_def split: sum.splits)
    show ?thesis
    proof (cases m)
      case Logarithmic
      then show ?thesis using blk assms(2) ncpa_log_block_cases[of gt se brand color r2 a b xmin xmax all_x_max ts]
        by (auto simp: ncpa_observed_def ncpa_extrapolated_def split: if_splits)
    next
      case Linear
      then show ?thesis using blk assms(2) ncpa_lin_block_cases[of gt se brand color r2 a b xmin xmax all_x_max ts]
        by (auto simp: ncpa_observed_def ncpa_extrapolated_def split: if_splits)
    qed
  qed
qed

lemma ncpa_part_log_block:
  assumes "ncpa_part gt Logarithmic se cols row brand color (CFloat x_min) (CFloat x_max) all_x_max = Inr ts"
    and "shows_model gt Logarithmic"
    and "parse_log_equation (row LogEq) = Inr (Some (a, b))"
  shows "ncpa_log_block gt se brand color (row LogR2) a b x_min x_max all_x_max = Inr ts"
proof -
  have c: "LogEq \<in> set cols"
    using assms(1,2) by (auto simp: ncpa_part_def bind_err_def row_get_def eq_column_def split: if_splits)
  then have c2: "LogR2 \<in> set cols"
    using assms
    by (auto simp: ncpa_part_def bind_err_def row_get_def eq_column_def r2_column_def parse_model_def
             split: if_splits)
  show ?thesis using assms c c2
    by (simp add: ncpa_part_def bind_err_def row_get_def eq_column_def r2_column_def parse_model_def
          as_float_def)
qed

lemma ncpa_row_parts:
  assumes "ncpa_row gt se cols all_x_max (i, row) = Inr ts"
  shows "\<exists>lg ln.
           ncpa_part gt Logarithmic se cols row (row Segment) (i mod 15) (row XMin) (row XMax) all_x_max = Inr lg
         \<and> ncpa_part gt Linear se cols row (row Segment) (i mod 15) (row XMin) (row XMax) all_x_max = Inr ln
         \<and> ts = lg @ ln"
  using assms
  by (auto simp: ncpa_row_def Let_def bind_err_def row_get_def split: sum.splits if_splits)


lemma ncpa_row_log_series:
  assumes "ncpa_row gt se cols all_x_max (i, row) = Inr ts"
    and "shows_model gt Logarithmic"
    and "parse_log_equation (row LogEq) = Inr (Some (a, b))"
    and "row XMin = CFloat x_min" and "row XMax = CFloat x_max"
  shows "\<exists>r2v. filter (\<lambda>t. tr_model t = Logarithmic) ts =
           (if fl_less (ncpa_x_start a b x_min) x_max
            then ncpa_observed gt Logarithmic (row Segment) (i mod 15) r2v a b (ncpa_x_start a b x_min) x_max #
                 (if se \<and> fl_less x_max all_x_max
                  then [ncpa_extrapolated Logarithmic (row Segment) (i mod 15) a b x_max all_x_max] else [])
            else [])"
proof -
  from ncpa_row_parts[OF assms(1)] obtain lg ln where
    p: "ncpa_part gt Logarithmic se cols row (row Segment) (i mod 15) (row XMin) (row XMax) all_x_max = Inr lg"
       "ncpa_part gt Linear se cols row (row Segment) (i mod 15) (row XMin) (row XMax) all_x_max = Inr ln"
       "ts = lg @ ln"
    by blast
  have "\<forall>t\<in>set lg. tr_model t = Logarithmic" using ncpa_part_model[OF p(1)] by blast
  moreover have "\<forall>t\<in>set ln. tr_model t \<noteq> Logarithmic" using ncpa_part_model[OF p(2)] by auto
  ultimately have f: "filter (\<lambda>t. tr_model t = Logarithmic) ts = lg"
    by (simp add: p(3) filter_empty_conv)
  have "ncpa_log_block gt se (row Segment) (i mod 15) (row LogR2) a b x_min x_max all_x_max = Inr lg"
    using p(1) assms(2,3) unfolding assms(4,5) by (rule ncpa_part_log_block)
  from ncpa_log_block_Inr[OF this] show ?thesis unfolding f .
qed

text \<open>Two evaluations of the minimum: one that exists, one whose \<open>np.exp\<close> underflows.\<close>

lemma rnd64_exp_one: "\<exists>xm. rnd64 (exp 1) = Fin xm \<and> 2 \<le> xm \<and> xm \<le> 3"
proof -
  have "(2::real) \<le> exp 1" using exp_ge_add_one_self[of "1::real"] by simp
  moreover have "exp 1 \<le> (3::real)" by (rule exp_le)
  moreover have "rnd64 2 = Fin 2" "rnd64 3 = Fin 3" by (simp_all add: rnd64_numeral)
  ultimately show ?thesis using rnd64_between[of 2 "exp 1" 3] by blast
qed

lemma ln_two_ge_half: "1 / 2 \<le> ln (2::real)"
proof -
  have "ln (1 / 2 :: real) \<le> 1 / 2 - 1" by (rule ln_le_minus_one) simp
  moreover have "ln (1 / 2 :: real) = - ln 2" by (simp add: ln_div)
  ultimately show ?thesis by simp
qed

lemma unit_minimum: "find_ncpa_minimum_log (Fin 1) (Fin 0) = Some (rnd64 (exp 1))"
proof -
  obtain xm where xm: "rnd64 (exp 1) = Fin xm" "2 \<le> xm" "xm \<le> 3" using rnd64_exp_one by blast
  have e: "np_exp (fl_sub (Fin 1) (fl_div (Fin 0) (Fin 1))) = Fin xm"
    by (simp add: fl_sub_def rnd64_zero rnd64_one xm(1))
  have "ln 2 \<le> ln xm" using xm(2) by simp
  then have lo: "1 / 2 \<le> ln xm" using ln_two_ge_half by linarith
  have "ln xm \<le> xm - 1" using xm(2) by (intro ln_le_minus_one) simp
  then have hi: "ln xm \<le> 2" using xm(3) by linarith
  have "rnd64 2 = Fin 2" by (simp add: rnd64_numeral)
  from rnd64_between[OF lo hi rnd64_half this]
  obtain l where l: "rnd64 (ln xm) = Fin l" "1 / 2 \<le> l" by blast
  have ll: "rnd64 l = Fin l" using l(1) by (rule rnd64_idem)
  have "fl_add (fl_mul (Fin 1) (np_log (Fin xm))) (Fin 0) = Fin l"
    using xm(2) l(1) ll by simp
  then show ?thesis using l(2) unfolding find_ncpa_minimum_log_def Let_def e xm(1)
    by (simp add: fl_le_Fin)
qed

lemma exp_underflow: "exp (- 9999 :: real) < 2 powr (- 1075)"
proof -
  have "(2::real) \<le> exp 1" using exp_ge_add_one_self[of "1::real"] by simp
  then have "(2::real) ^ 9999 \<le> exp 1 ^ 9999" by (intro power_mono) simp_all
  moreover have "exp (1::real) ^ 9999 = exp (of_nat 9999 * 1)" by (rule exp_of_nat_mult [symmetric])
  moreover have "(2::real) ^ 1075 < 2 ^ 9999" by (intro power_strict_increasing) simp_all
  ultimately have "(2::real) ^ 1075 < exp 9999" by simp
  then have "inverse (exp (9999::real)) < inverse (2 ^ 1075)"
    by (intro less_imp_inverse_less) simp_all
  moreover have "inverse (exp (9999::real)) = exp (- 9999)" by (simp add: exp_minus)
  moreover have "inverse ((2::real) ^ 1075) = 2 powr (- 1075)" by (simp add: powr_minus)
  ultimately show ?thesis by simp
qed

lemma steep_minimum: "find_ncpa_minimum_log (Fin 1) (Fin 10000) = None"
proof -
  have "rnd64 (- 9999) = Fin (- 9999)" using rnd64_neg[of 9999] by (simp add: rnd64_numeral)
  then have s: "fl_sub (Fin 1) (fl_div (Fin 10000) (Fin 1)) = Fin (- 9999)"
    by (simp add: fl_sub_def rnd64_numeral)
  have "rnd64 (exp (- 9999)) = Fin 0" by (rule rnd64_underflow) (simp_all add: exp_underflow)
  then have e: "np_exp (Fin (- 9999)) = Fin 0" by simp
  show ?thesis unfolding find_ncpa_minimum_log_def Let_def s e
    by (simp add: fl_le_Fin inf_of_sign_def)
qed

lemma find_ncpa_minimum_log_Some:
  "find_ncpa_minimum_log a b = Some x
   \<longleftrightarrow> (fl_less (Fin 0) a
        \<and> fl_less (Fin 0) (fl_add (fl_mul a (np_log (np_exp (fl_sub (Fin 1) (fl_div b a))))) b)
        \<and> x = np_exp (fl_sub (Fin 1) (fl_div b a)))"
proof (cases "a = NaN")
  case True
  have "fl_div b NaN = NaN" by (cases b) simp_all
  then show ?thesis using True
    by (simp add: find_ncpa_minimum_log_def Let_def fl_le_def fl_sub_def)
next
  case False
  then have "fl_le a (Fin 0) \<longleftrightarrow> \<not> fl_less (Fin 0) a"
    by (cases a) (auto simp: fl_le_def)
  then show ?thesis by (auto simp: find_ncpa_minimum_log_def Let_def)
qed

lemma find_ncpa_minimum_log_None:
  "\<not> (fl_less (Fin 0) a
      \<and> fl_less (Fin 0) (fl_add (fl_mul a (np_log (np_exp (fl_sub (Fin 1) (fl_div b a))))) b))
   \<Longrightarrow> find_ncpa_minimum_log a b = None"
  using find_ncpa_minimum_log_Some[of a b] by (cases "find_ncpa_minimum_log a b") auto

lemma ncpa_x_start_None: "find_ncpa_minimum_log a b = None \<Longrightarrow> ncpa_x_start a b x_min = x_min"
  by (simp add: ncpa_x_start_def)


text \<open>
  Claim C2.  For every pair of coefficients: the minimum point of the cost metric
  is \<open>exp (1 - b / a)\<close> exactly when \<open>a > 0\<close> and \<open>a * ln (exp (1 - b / a)) + b > 0\<close>,
  all evaluated in floats.  In every other case it is undefined and the start point
  is \<open>x_min\<close>; then, in a generated cost chart, the logarithmic series of a row with
  these coefficients is empty when \<open>x_min < x_max\<close> fails and otherwise begins with
  the observed series sampled by \<open>linspace x_min x_max 300\<close>.  (\<open>tss ! i\<close> are the
  traces of row \<open>i\<close>.)
\<close>

theorem ncpa_minimum_defined_iff:
  assumes "generate_ncpa_graph df gt se ratio = Inr ts"
  shows "(\<forall>x. find_ncpa_minimum_log a b = Some x
            \<longleftrightarrow> (fl_less (Fin 0) a
                 \<and> fl_less (Fin 0) (fl_add (fl_mul a (np_log (np_exp (fl_sub (Fin 1) (fl_div b a))))) b)
                 \<and> x = np_exp (fl_sub (Fin 1) (fl_div b a))))
   \<and> (\<not> (fl_less (Fin 0) a
          \<and> fl_less (Fin 0) (fl_add (fl_mul a (np_log (np_exp (fl_sub (Fin 1) (fl_div b a))))) b))
        \<longrightarrow> find_ncpa_minimum_log a b = None \<and> ncpa_x_start a b x_min = x_min)
   \<and> (\<exists>maxs tss.
          map_err as_float (map (\<lambda>row. row XMax) (df_rows df)) = Inr maxs
        \<and> length tss = length (df_rows df)
        \<and> ts = concat tss
        \<and> (\<forall>i<length (df_rows df).
              ncpa_row gt se (df_columns df) (fl_mul (series_max maxs) (Fin ratio))
                (i, df_rows df ! i) = Inr (tss ! i)
            \<and> (shows_model gt Logarithmic
               \<and> parse_log_equation ((df_rows df ! i) LogEq) = Inr (Some (a, b))
               \<and> (df_rows df ! i) XMin = CFloat x_min
               \<and> (df_rows df ! i) XMax = CFloat x_max
               \<and> find_ncpa_minimum_log a b = None
               \<longrightarrow> (if fl_less x_min x_max
                    then \<exists>obs rest.
                           filter (\<lambda>t. tr_model t = Logarithmic) (tss ! i) = obs # rest
                         \<and> tr_region obs = Observed
                         \<and> tr_x obs = linspace x_min x_max 300
                    else filter (\<lambda>t. tr_model t = Logarithmic) (tss ! i) = []))))"
proof (intro conjI)
  show "\<forall>x. find_ncpa_minimum_log a b = Some x
            \<longleftrightarrow> (fl_less (Fin 0) a
                 \<and> fl_less (Fin 0) (fl_add (fl_mul a (np_log (np_exp (fl_sub (Fin 1) (fl_div b a))))) b)
                 \<and> x = np_exp (fl_sub (Fin 1) (fl_div b a)))"
    using find_ncpa_minimum_log_Some by blast
next
  show "\<not> (fl_less (Fin 0) a
          \<and> fl_less (Fin 0) (fl_add (fl_mul a (np_log (np_exp (fl_sub (Fin 1) (fl_div b a))))) b))
        \<longrightarrow> find_ncpa_minimum_log a b = None \<and> ncpa_x_start a b x_min = x_min"
    using find_ncpa_minimum_log_None[of a b] ncpa_x_start_None[of a b x_min] by blast
next
  from generate_ncpa_graph_rows[OF assms] obtain maxs tss where
    g: "map_err as_float (map (\<lambda>row. row XMax) (df_rows df)) = Inr maxs"
       "length tss = length (df_rows df)" "ts = concat tss"
       "\<forall>i<length (df_rows df).
           ncpa_row gt se (df_columns df) (fl_mul (series_max maxs) (Fin ratio))
             (i, df_rows df ! i) = Inr (tss ! i)"
    by blast
  have "if fl_less x_min x_max
        then \<exists>obs rest.
               filter (\<lambda>t. tr_model t = Logarithmic) (tss ! i) = obs # rest
             \<and> tr_region obs = Observed
             \<and> tr_x obs = linspace x_min x_max 300
        else filter (\<lambda>t. tr_model t = Logarithmic) (tss ! i) = []"
    if i: "i < length (df_rows df)"
      and h: "shows_model gt Logarithmic
               \<and> parse_log_equation ((df_rows df ! i) LogEq) = Inr (Some (a, b))
               \<and> (df_rows df ! i) XMin = CFloat x_min
               \<and> (df_rows df ! i) XMax = CFloat x_max
               \<and> find_ncpa_minimum_log a b = None" for i
  proof -
    have r: "ncpa_row gt se (df_columns df) (fl_mul (series_max maxs) (Fin ratio))
               (i, df_rows df ! i) = Inr (tss ! i)"
      using g(4) i by blast
    have s: "ncpa_x_start a b x_min = x_min" using h by (simp add: ncpa_x_start_None)
    from ncpa_row_log_series[OF r, of a b x_min x_max] h
    obtain r2v where
      "filter (\<lambda>t. tr_model t = Logarithmic) (tss ! i) =
         (if fl_less (ncpa_x_start a b x_min) x_max
          then ncpa_observed gt Logarithmic ((df_rows df ! i) Segment) (i mod 15) r2v a b
                 (ncpa_x_start a b x_min) x_max #
               (if se \<and> fl_less x_max (fl_mul (series_max maxs) (Fin ratio))
                then [ncpa_extrapolated Logarithmic ((df_rows df ! i) Segment) (i mod 15) a b x_max
                        (fl_mul (series_max maxs) (Fin ratio))] else [])
          else [])"
      by blast
    then show ?thesis unfolding s by (simp add: ncpa_observed_def)
  qed
  then show "\<exists>maxs tss.
          map_err as_float (map (\<lambda>row. row XMax) (df_rows df)) = Inr maxs
        \<and> length tss = length (df_rows df)
        \<and> ts = concat tss
        \<and> (\<forall>i<length (df_rows df).
              ncpa_row gt se (df_columns df) (fl_mul (series_max maxs) (Fin ratio))
                (i, df_rows df ! i) = Inr (tss ! i)
            \<and> (shows_model gt Logarithmic
               \<and> parse_log_equation ((df_rows df ! i) LogEq) = Inr (Some (a, b))
               \<and> (df_rows df ! i) XMin = CFloat x_min
               \<and> (df_rows df ! i) XMax = CFloat x_max
               \<and> find_ncpa_minimum_log a b = None
               \<longrightarrow> (if fl_less x_min x_max
                    then \<exists>obs rest.
                           filter (\<lambda>t. tr_model t = Logarithmic) (tss ! i) = obs # rest
                         \<and> tr_region obs = Observed
                         \<and> tr_x obs = linspace x_min x_max 300
                    else filter (\<lambda>t. tr_model t = Logarithmic) (tss ! i) = [])))"
    using g by blast
qed

lemmas ncpa_eval = generate_ncpa_graph_def ncpa_row_def ncpa_part_def bind_err_def
  df_col_def row_get_def as_float_def series_max_def
  shows_model_def eq_column_def r2_column_def parse_model_def enumerate_eq_zip

lemma steep_parse:
  "parse_log_equation (CStr ''y = 1 * ln(x) + 10000'') = Inr (Some (Fin 1, Fin 10000))"
  by (simp add: parse_eval rnd64_numeral rnd64_one)

lemma steep_generate:
  "generate_ncpa_graph steep_df LogOnly False 1.5 =
     Inr [ncpa_observed LogOnly Logarithmic (CStr ''S'') 0 (Fin 0.5) (Fin 1) (Fin 10000) (Fin 1) (Fin 2)]"
  by (simp add: ncpa_eval steep_df_def steep_row_def all_cols_def steep_parse
        ncpa_log_block_CFloat ncpa_x_start_None steep_minimum)

theorem ncpa_minimum_defined_iff_witness:
  "generate_ncpa_graph steep_df LogOnly False 1.5 =
     Inr [ncpa_observed LogOnly Logarithmic (CStr ''S'') 0 (Fin 0.5) (Fin 1) (Fin 10000) (Fin 1) (Fin 2)]
   \<and> parse_log_equation (steep_row LogEq) = Inr (Some (Fin 1, Fin 10000))
   \<and> steep_row XMin = CFloat (Fin 1) \<and> steep_row XMax = CFloat (Fin 2)
   \<and> fl_less (Fin 0) (Fin 1)
   \<and> \<not> fl_less (Fin 0)
         (fl_add (fl_mul (Fin 1) (np_log (np_exp (fl_sub (Fin 1) (fl_div (Fin 10000) (Fin 1)))))) (Fin 10000))
   \<and> find_ncpa_minimum_log (Fin 1) (Fin 10000) = None
   \<and> ncpa_x_start (Fin 1) (Fin 10000) (Fin 1) = Fin 1
   \<and> fl_less (Fin 1) (Fin 2)
   \<and> (\<exists>obs rest.
         filter (\<lambda>t. tr_model t = Logarithmic)
           [ncpa_observed LogOnly Logarithmic (CStr ''S'') 0 (Fin 0.5) (Fin 1) (Fin 10000) (Fin 1) (Fin 2)]
           = obs # rest
       \<and> tr_region obs = Observed
       \<and> tr_x obs = linspace (Fin 1) (Fin 2) 300)
   \<and> find_ncpa_minimum_log (Fin 1) (Fin 0) = Some (rnd64 (exp 1))"
proof -
  let ?obs = "ncpa_observed LogOnly Logarithmic (CStr ''S'') 0 (Fin 0.5) (Fin 1) (Fin 10000) (Fin 1) (Fin 2)"
  note T = ncpa_minimum_defined_iff[OF steep_generate, of "Fin 1" "Fin 10000" "Fin 1" "Fin 2"]
  have p: "parse_log_equation (steep_row LogEq) = Inr (Some (Fin 1, Fin 10000))"
    by (simp add: steep_row_def steep_parse)
  have c: "steep_row XMin = CFloat (Fin 1)" "steep_row XMax = CFloat (Fin 2)"
    by (simp_all add: steep_row_def)
  have pos: "fl_less (Fin 0) (Fin 1)" and lt: "fl_less (Fin 1) (Fin 2)" by simp_all
  have none: "find_ncpa_minimum_log (Fin 1) (Fin 10000) = None" by (rule steep_minimum)
  have npos: "\<not> fl_less (Fin 0)
         (fl_add (fl_mul (Fin 1) (np_log (np_exp (fl_sub (Fin 1) (fl_div (Fin 10000) (Fin 1)))))) (Fin 10000))"
    using T none pos by (metis option.distinct(1))
  have st: "ncpa_x_start (Fin 1) (Fin 10000) (Fin 1) = Fin 1" using T npos by blast
  from T obtain maxs tss where
    g: "length tss = length (df_rows steep_df)" "[?obs] = concat tss"
       "\<forall>i<length (df_rows steep_df).
              ncpa_row LogOnly False (df_columns steep_df) (fl_mul (series_max maxs) (Fin 1.5))
                (i, df_rows steep_df ! i) = Inr (tss ! i)
            \<and> (shows_model LogOnly Logarithmic
               \<and> parse_log_equation ((df_rows steep_df ! i) LogEq) = Inr (Some (Fin 1, Fin 10000))
               \<and> (df_rows steep_df ! i) XMin = CFloat (Fin 1)
               \<and> (df_rows steep_df ! i) XMax = CFloat (Fin 2)
               \<and> find_ncpa_minimum_log (Fin 1) (Fin 10000) = None
               \<longrightarrow> (if fl_less (Fin 1) (Fin 2)
                    then \<exists>obs rest.
                           filter (\<lambda>t. tr_model t = Logarithmic) (tss ! i) = obs # rest
                         \<and> tr_region obs = Observed
                         \<and> tr_x obs = linspace (Fin 1) (Fin 2) 300
                    else filter (\<lambda>t. tr_model t = Logarithmic) (tss ! i) = []))"
    by blast
  have len: "length tss = 1" using g(1) by (simp add: steep_df_def)
  then obtain t0 where t0: "tss = [t0]" by (cases tss) auto
  then have "tss ! 0 = [?obs]" using g(2) by simp
  moreover have "shows_model LogOnly Logarithmic" by (simp add: shows_model_def)
  moreover have "df_rows steep_df ! 0 = steep_row" "(0::nat) < length (df_rows steep_df)"
    by (simp_all add: steep_df_def)
  ultimately have ex: "\<exists>obs rest.
         filter (\<lambda>t. tr_model t = Logarithmic) [?obs] = obs # rest
       \<and> tr_region obs = Observed
       \<and> tr_x obs = linspace (Fin 1) (Fin 2) 300"
    using g(3) p c none lt by (metis (no_types, lifting))
  have some: "find_ncpa_minimum_log (Fin 1) (Fin 0) = Some (rnd64 (exp 1))" by (rule unit_minimum)
  show ?thesis using steep_generate p c pos npos none st lt ex some by blast
qed









subsection \<open>The acquisition chart\<close>

lemmas run_eval = generate_graph_def graph_row_def uu_part_def bind_err_def
  df_col_def row_get_def as_float_def format_r2_def series_min_def series_max_def
  shows_model_def eq_column_def r2_column_def parse_model_def enumerate_eq_zip
  inf_of_sign_def

lemmas sample_eval = sample_df_def sample_row1_def sample_row2_def all_cols_def

lemma sample_parse1:
  "parse_log_equation (CStr ''y = 77.1095 * ln(x) + -656.0219'')
   = Inr (Some (rnd64 77.1095, fl_neg (rnd64 656.0219)))"
  by (simp add: parse_eval)

lemma sample_parse2:
  "parse_log_equation (CStr ''y = 365.3877 * ln(x) + -3853.9650'')
   = Inr (Some (rnd64 365.3877, fl_neg (rnd64 3853.9650)))"
  by (simp add: parse_eval)

lemma sample_generate_graph:
  "generate_graph sample_df LogOnly True 1 =
     Inr (concat
       [uu_block LogOnly Logarithmic True (CStr ''A1'') 0 (Fin 0.61)
          (rnd64 77.1095) (fl_neg (rnd64 656.0219))
          (Fin 150) (Fin 195023) (Fin 150) (Fin 833174),
        uu_block LogOnly Logarithmic True (CStr ''A2'') 1 (Fin 0.81)
          (rnd64 365.3877) (fl_neg (rnd64 3853.9650))
          (Fin 2198) (Fin 833174) (Fin 150) (Fin 833174)])"
  by (simp add: run_eval sample_eval sample_parse1 sample_parse2 rnd64_numeral)

theorem extrapolation_ratio_one_counterexample:
  "map_sum id (map tr_region) (generate_graph sample_df LogOnly True 1)
   = Inr [Observed, ExtrapolatedHigh, Observed, ExtrapolatedLow]"
  by (simp add: sample_generate_graph uu_block_def uu_observed_def uu_extrapolated_def)

lemma fl_mul_one_not_greater:
  assumes "\<forall>v. u = Fin v \<longrightarrow> rnd64 v = Fin v"
  shows "\<not> fl_less u (fl_mul u (Fin 1))"
  using assms by (cases u) (simp_all add: inf_of_sign_def)

lemma uu_block_no_high:
  assumes "\<not> fl_less x_max all_x_max"
    "t \<in> set (uu_block gt m se brand color r2 a b x_min x_max all_x_min all_x_max)"
  shows "tr_region t \<noteq> ExtrapolatedHigh"
  using assms by (auto simp: uu_block_def uu_observed_def uu_extrapolated_def split: if_splits)

lemma uu_part_no_high:
  assumes "uu_part gt m se cols row brand color x_min (CFloat xm) all_x_min all_x_max = Inr ts"
    "\<not> fl_less xm all_x_max" "t \<in> set ts"
  shows "tr_region t \<noteq> ExtrapolatedHigh"
proof (cases "shows_model gt m")
  case False
  then show ?thesis using assms by (simp add: uu_part_def)
next
  case True
  from assms(1) True obtain eq co r2 where
    s: "row_get cols row (eq_column m) = Inr eq" "parse_model m eq = Inr co"
       "row_get cols row (r2_column m) = Inr r2"
    by (auto simp: uu_part_def bind_err_def split: sum.splits)
  show ?thesis
  proof (cases co)
    case None
    then show ?thesis using assms True s by (simp add: uu_part_def bind_err_def)
  next
    case (Some ab)
    obtain a b where ab: "ab = (a, b)" by (cases ab)
    from assms(1) True s Some ab obtain xmin r2v where
      "ts = uu_block gt m se brand color r2v a b xmin xm all_x_min all_x_max"
      by (auto simp: uu_part_def bind_err_def as_float_def split: sum.splits)
    then show ?thesis using uu_block_no_high[OF assms(2)] assms(3) by blast
  qed
qed

lemma graph_row_no_high:
  assumes "graph_row gt se cols all_x_min all_x_max (i, row) = Inr ts"
    "row XMax = CFloat xm" "\<not> fl_less xm all_x_max" "t \<in> set ts"
  shows "tr_region t \<noteq> ExtrapolatedHigh"
proof -
  from assms(1) obtain brand x_min x_max lg ln where
    g: "row_get cols row XMax = Inr x_max"
       "uu_part gt Logarithmic se cols row brand (i mod 15) x_min x_max all_x_min all_x_max = Inr lg"
       "uu_part gt Linear se cols row brand (i mod 15) x_min x_max all_x_min all_x_max = Inr ln"
       "ts = lg @ ln"
    by (auto simp: graph_row_def Let_def bind_err_def split: sum.splits)
  have "x_max = CFloat xm" using g(1) assms(2) by (auto simp: row_get_def split: if_splits)
  then show ?thesis
    using g(2,3,4) assms(3,4) uu_part_no_high by (metis Un_iff set_append)
qed

lemma generate_graph_rows:
  assumes "generate_graph df gt se ratio = Inr ts"
  shows "\<exists>mins maxs tss.
           map_err as_float (map (\<lambda>row. row XMin) (df_rows df)) = Inr mins
         \<and> map_err as_float (map (\<lambda>row. row XMax) (df_rows df)) = Inr maxs
         \<and> map_err (graph_row gt se (df_columns df) (series_min mins)
                       (fl_mul (series_max maxs) (Fin ratio)))
                    (enumerate 0 (df_rows df)) = Inr tss
         \<and> ts = concat tss"
  using assms
  by (auto simp: generate_graph_def bind_err_def df_col_def split: sum.splits if_splits)

text \<open>
  Claim C3, amended.  With the extrapolation ratio 1.0, the acquisition chart has no
  ExtrapolatedHigh series for any segment whose max x equals the largest max x of
  the table.  Here \<open>mins\<close> and \<open>maxs\<close> are the two numeric columns, \<open>tss ! i\<close> is what
  the loop body returns for row \<open>i\<close>, and the chart is the concatenation of these;
  the largest max x is a double, as every cell of a data frame is.
\<close>

theorem no_high_extrapolation_at_largest_max:
  assumes "generate_graph df gt se 1 = Inr ts"
  shows "\<exists>mins maxs tss.
           map_err as_float (map (\<lambda>row. row XMin) (df_rows df)) = Inr mins
         \<and> map_err as_float (map (\<lambda>row. row XMax) (df_rows df)) = Inr maxs
         \<and> length tss = length (df_rows df)
         \<and> ts = concat tss
         \<and> (\<forall>i<length (df_rows df).
               graph_row gt se (df_columns df) (series_min mins)
                 (fl_mul (series_max maxs) (Fin 1)) (i, df_rows df ! i) = Inr (tss ! i)
             \<and> ((df_rows df ! i) XMax = CFloat (series_max maxs)
                 \<and> (\<forall>v. series_max maxs = Fin v \<longrightarrow> rnd64 v = Fin v)
                \<longrightarrow> (\<forall>t\<in>set (tss ! i). tr_region t \<noteq> ExtrapolatedHigh)))"
proof -
  from generate_graph_rows[OF assms] obtain mins maxs tss where
    g: "map_err as_float (map (\<lambda>row. row XMin) (df_rows df)) = Inr mins"
       "map_err as_float (map (\<lambda>row. row XMax) (df_rows df)) = Inr maxs"
       "map_err (graph_row gt se (df_columns df) (series_min mins)
                   (fl_mul (series_max maxs) (Fin 1)))
                (enumerate 0 (df_rows df)) = Inr tss"
       "ts = concat tss"
    by blast
  from map_err_Inr[OF g(3)] have
    len: "length tss = length (df_rows df)" and
    nth: "\<forall>i<length (df_rows df).
            graph_row gt se (df_columns df) (series_min mins) (fl_mul (series_max maxs) (Fin 1))
              (enumerate 0 (df_rows df) ! i) = Inr (tss ! i)"
    by simp_all
  have row: "graph_row gt se (df_columns df) (series_min mins) (fl_mul (series_max maxs) (Fin 1))
            (i, df_rows df ! i) = Inr (tss ! i)"
    if i: "i < length (df_rows df)" for i
    using nth i by (simp add: nth_enumerate_eq)
  have high: "\<forall>t\<in>set (tss ! i). tr_region t \<noteq> ExtrapolatedHigh"
    if i: "i < length (df_rows df)" and mx: "(df_rows df ! i) XMax = CFloat (series_max maxs)"
      and dbl: "\<forall>v. series_max maxs = Fin v \<longrightarrow> rnd64 v = Fin v" for i
  proof
    fix t assume t: "t \<in> set (tss ! i)"
    show "tr_region t \<noteq> ExtrapolatedHigh"
      using row[OF i] mx fl_mul_one_not_greater[OF dbl] t by (rule graph_row_no_high)
  qed
  have "\<forall>i<length (df_rows df).
               graph_row gt se (df_columns df) (series_min mins)
                 (fl_mul (series_max maxs) (Fin 1)) (i, df_rows df ! i) = Inr (tss ! i)
             \<and> ((df_rows df ! i) XMax = CFloat (series_max maxs)
                 \<and> (\<forall>v. series_max maxs = Fin v \<longrightarrow> rnd64 v = Fin v)
                \<longrightarrow> (\<forall>t\<in>set (tss ! i). tr_region t \<noteq> ExtrapolatedHigh))"
    using row high by blast
  then show ?thesis using g(1,2,4) len by blast
qed

lemma sample_columns:
  "map_err as_float (map (\<lambda>row. row XMin) (df_rows sample_df)) = Inr [Fin 150, Fin 2198]"
  "map_err as_float (map (\<lambda>row. row XMax) (df_rows sample_df)) = Inr [Fin 195023, Fin 833174]"
  "series_min [Fin 150, Fin 2198] = Fin 150"
  "series_max [Fin 195023, Fin 833174] = Fin 833174"
  by (simp_all add: sample_eval as_float_def series_min_def series_max_def)

theorem no_high_extrapolation_at_largest_max_witness:
  "(\<exists>ts. generate_graph sample_df LogOnly True 1 = Inr ts)
   \<and> map_err as_float (map (\<lambda>row. row XMax) (df_rows sample_df)) = Inr [Fin 195023, Fin 833174]
   \<and> series_max [Fin 195023, Fin 833174] = Fin 833174
   \<and> rnd64 833174 = Fin 833174
   \<and> (df_rows sample_df ! 1) XMax = CFloat (Fin 833174)
   \<and> (\<exists>tss :: trace list list. length tss = 2
        \<and> generate_graph sample_df LogOnly True 1 = Inr (concat tss)
        \<and> graph_row LogOnly True (df_columns sample_df) (Fin 150) (Fin 833174)
            (1, df_rows sample_df ! 1) = Inr (tss ! 1)
        \<and> tss ! 1 \<noteq> []
        \<and> (\<forall>t\<in>set (tss ! 1). tr_region t \<noteq> ExtrapolatedHigh))"
proof -
  have r: "rnd64 833174 = Fin 833174" by (simp add: rnd64_numeral)
  have x: "(df_rows sample_df ! 1) XMax = CFloat (Fin 833174)" by (simp add: sample_eval)
  have n: "length (df_rows sample_df) = 2" by (simp add: sample_eval)
  have m1: "fl_mul (Fin 833174) (Fin 1) = Fin 833174" using r by simp
  from no_high_extrapolation_at_largest_max[OF sample_generate_graph]
  obtain mins maxs tss where
    g: "map_err as_float (map (\<lambda>row. row XMin) (df_rows sample_df)) = Inr mins"
       "map_err as_float (map (\<lambda>row. row XMax) (df_rows sample_df)) = Inr maxs"
       "length tss = length (df_rows sample_df)"
       "concat
         [uu_block LogOnly Logarithmic True (CStr ''A1'') 0 (Fin 0.61)
            (rnd64 77.1095) (fl_neg (rnd64 656.0219))
            (Fin 150) (Fin 195023) (Fin 150) (Fin 833174),
          uu_block LogOnly Logarithmic True (CStr ''A2'') 1 (Fin 0.81)
            (rnd64 365.3877) (fl_neg (rnd64 3853.9650))
            (Fin 2198) (Fin 833174) (Fin 150) (Fin 833174)] = concat tss"
       "\<forall>i<length (df_rows sample_df).
               graph_row LogOnly True (df_columns sample_df) (series_min mins)
                 (fl_mul (series_max maxs) (Fin 1)) (i, df_rows sample_df ! i) = Inr (tss ! i)
             \<and> ((df_rows sample_df ! i) XMax = CFloat (series_max maxs)
                 \<and> (\<forall>v. series_max maxs = Fin v \<longrightarrow> rnd64 v = Fin v)
                \<longrightarrow> (\<forall>t\<in>set (tss ! i). tr_region t \<noteq> ExtrapolatedHigh))"
    by blast
  have mins: "mins = [Fin 150, Fin 2198]" and maxs: "maxs = [Fin 195023, Fin 833174]"
    using g(1,2) sample_columns(1,2) by simp_all
  have i1: "(1::nat) < length (df_rows sample_df)" using n by simp
  note A = g(5)[rule_format, OF i1, unfolded mins maxs sample_columns(3,4) m1]
  have row: "graph_row LogOnly True (df_columns sample_df) (Fin 150) (Fin 833174)
            (1, df_rows sample_df ! 1) = Inr (tss ! 1)"
    using A by (rule conjunct1)
  have hyp: "(df_rows sample_df ! 1) XMax = CFloat (Fin 833174)
           \<and> (\<forall>v. Fin 833174 = Fin v \<longrightarrow> rnd64 v = Fin v)"
    using x r by simp
  have high: "\<forall>t\<in>set (tss ! 1). tr_region t \<noteq> ExtrapolatedHigh"
    using A[THEN conjunct2, rule_format, OF hyp] by blast
  have ne: "tss ! 1 \<noteq> []"
  proof
    assume e: "tss ! 1 = []"
    have "graph_row LogOnly True (df_columns sample_df) (Fin 150) (Fin 833174)
            (1, df_rows sample_df ! 1) \<noteq> Inr []"
      by (simp add: run_eval sample_eval sample_parse2 uu_block_def)
    then show False using row e by simp
  qed
  have l2: "length tss = 2" using g(3) n by simp
  have gen: "generate_graph sample_df LogOnly True 1 = Inr (concat tss)"
    using sample_generate_graph g(4) by simp
  have ex: "\<exists>tss :: trace list list. length tss = 2
        \<and> generate_graph sample_df LogOnly True 1 = Inr (concat tss)
        \<and> graph_row LogOnly True (df_columns sample_df) (Fin 150) (Fin 833174)
            (1, df_rows sample_df ! 1) = Inr (tss ! 1)
        \<and> tss ! 1 \<noteq> []
        \<and> (\<forall>t\<in>set (tss ! 1). tr_region t \<noteq> ExtrapolatedHigh)"
    by (rule exI[of _ tss]) (intro conjI l2 gen row ne high)
  have e0: "\<exists>ts. generate_graph sample_df LogOnly True 1 = Inr ts"
    using sample_generate_graph by blast
  show ?thesis using e0 sample_columns(2,4) r x ex by blast
qed

lemma example_parse_log:
  "parse_log_equation (CStr ''y = 2 * ln(x) + 3'') = Inr (Some (Fin 2, Fin 3))"
  by (simp add: parse_eval rnd64_numeral)

lemma example_parse_lin:
  "parse_linear_equation (CStr ''y = 2 * x + 3'') = Inr (Some (Fin 2, Fin 3))"
  by (simp add: parse_eval rnd64_numeral)

lemma zero_min_generate_graph:
  "generate_graph zero_min_df LogOnly False 1.5 =
     Inr (uu_block LogOnly Logarithmic False (CStr ''Z'') 0 (Fin 0.5) (Fin 2) (Fin 3)
            (Fin 0) (Fin 10) (Fin 0) (Fin 15))"
  by (simp add: run_eval zero_min_df_def zero_min_row_def all_cols_def example_parse_log
        rnd64_numeral)

lemma hd_uu_log:
  "xs \<noteq> [] \<Longrightarrow> hd (uu_model Logarithmic a b xs) = fl_add (fl_mul a (np_log (hd xs))) b"
  by (cases xs) (simp_all add: uu_model_def uu_log_def)

lemma zero_min_first_sample: "hd (linspace (Fin 0) (Fin 10) 300) = Fin 0"
proof -
  have "linspace (Fin 0) (Fin 10) 300 ! 0 = Fin 0"
    by (rule linspace_first) (simp_all add: rnd64_zero rnd64_numeral)
  then show ?thesis by (simp add: hd_linspace)
qed

text \<open>
  The claim as worded (an error state, and no series built from undefined
  logarithms) fails on a row with \<open>min x = 0\<close>: the chart is generated and holds
  the observed series, whose first y value is minus infinity.
\<close>

theorem nonpositive_xmin_counterexample:
  "map_sum id (map tr_region) (generate_graph zero_min_df LogOnly False 1.5) = Inr [Observed]
   \<and> map_sum id (map (length \<circ> tr_y)) (generate_graph zero_min_df LogOnly False 1.5) = Inr [300]
   \<and> map_sum id (map (hd \<circ> tr_y)) (generate_graph zero_min_df LogOnly False 1.5) = Inr [NInf]"
  unfolding zero_min_generate_graph
  by (simp add: uu_block_def uu_observed_def hd_uu_log linspace_nonempty
        zero_min_first_sample uu_model_length length_linspace inf_of_sign_def)

text \<open>A string that does not match is skipped by the guard: the block adds nothing
  and raises nothing, so the other block of the row still runs.\<close>

lemma parse_miss_is_skipped:
  assumes "eq_column m \<in> set cols" and "r2_column m \<in> set cols"
    and "parse_model m (row (eq_column m)) = Inr None"
  shows "uu_part gt m se cols row brand color x_min x_max all_x_min all_x_max = Inr []"
  using assms by (simp add: uu_part_def bind_err_def row_get_def)

lemma parse_miss_keeps_linear:
  assumes "set all_cols \<subseteq> set cols" and "parse_log_equation (row LogEq) = Inr None"
  shows "graph_row Both se cols all_x_min all_x_max (i, row)
         = uu_part Both Linear se cols row (row Segment) (i mod 15) (row XMin) (row XMax)
             all_x_min all_x_max"
proof -
  have c: "Segment \<in> set cols" "XMin \<in> set cols" "XMax \<in> set cols"
          "eq_column Logarithmic \<in> set cols" "r2_column Logarithmic \<in> set cols"
    using assms(1) by (auto simp: all_cols_def eq_column_def r2_column_def)
  have p: "parse_model Logarithmic (row (eq_column Logarithmic)) = Inr None"
    using assms(2) by (simp add: parse_model_def eq_column_def)
  have l: "uu_part Both Logarithmic se cols row (row Segment) (i mod 15) (row XMin) (row XMax)
             all_x_min all_x_max = Inr []"
    using c(4,5) p by (rule parse_miss_is_skipped)
  show ?thesis
    using c(1-3) l
    by (cases "uu_part Both Linear se cols row (row Segment) (i mod 15) (row XMin) (row XMax)
                 all_x_min all_x_max")
       (simp_all add: graph_row_def Let_def bind_err_def row_get_def)
qed

text \<open>
  Claim C4.  The claim: a row with an empty logarithmic equation and valid linear
  fields still gets its linear series.  With both models selected the program does
  otherwise: the empty cell is the float NaN, \<open>re.search\<close> raises TypeError in the
  logarithmic block, and the handler reports a failure with no figure at all.
\<close>

theorem empty_log_equation_aborts:
  "generate_button str_to_num empty_log_df Both True 1.5 = Failed TypeError"
  by (simp add: generate_button_def required_cols_def to_numeric_def to_numeric_cell_def
        run_eval empty_log_df_def empty_log_row_def all_cols_def parse_log_equation_def
        parse_equation_def)

text \<open>
  Claim C8.  The claim: a table with the three required columns but without
  optional columns is not an error.  The program does otherwise: the coercion
  of the first absent R2 column raises KeyError, whatever the graph type, and
  the handler reports a failure with no figure.
\<close>

theorem missing_optional_columns_abort:
  "generate_button str_to_num required_only_df gt se ratio = Failed KeyError
   \<and> generate_button str_to_num log_only_df LogOnly se ratio = Failed KeyError"
  by (simp add: generate_button_def required_cols_def to_numeric_def bind_err_def
        required_only_df_def log_only_df_def)

lemma np_log_nonpos_sample:
  assumes "x \<le> 0" "u = rnd64 x \<or> u = NaN"
  shows "np_log u = NInf \<or> np_log u = NaN"
proof -
  from rnd64_nonpos[OF assms(1)] have le: "fl_le (rnd64 x) (Fin 0)" .
  show ?thesis
  proof (cases u)
    case (Fin v)
    then have "fl_le (Fin v) (Fin 0)" using assms(2) le by auto
    then have "v \<le> 0" by (simp add: fl_le_Fin)
    then show ?thesis using Fin by auto
  next
    case PInf
    then show ?thesis using assms(2) le by (auto simp: fl_le_def)
  qed simp_all
qed

lemma log_value_not_finite:
  assumes "np_log u = NInf \<or> np_log u = NaN"
  shows "fl_add (fl_mul a (np_log u)) b \<noteq> Fin v"
proof (rule fl_add_not_fin)
  show "\<forall>v. fl_mul a (np_log u) \<noteq> Fin v"
    using assms fl_mul_NInf_not_fin[of a] fl_mul_NaN_right[of a] by auto
qed

text \<open>
  Claim C7, amended.  The logarithmic block has no domain check: for a segment with
  \<open>x_min \<le> 0\<close> whose equation parses, no error is raised; the block returns its
  observed series with 300 samples as for any other segment, and the first y value
  of that series is not a finite number.
\<close>

theorem log_series_emitted_for_nonpositive_xmin:
  assumes "shows_model gt Logarithmic" and "LogEq \<in> set cols" and "LogR2 \<in> set cols"
    and "parse_log_equation (row LogEq) = Inr (Some (a, b))" and "row LogR2 = CFloat r2"
    and "x_min \<le> 0"
  shows "\<exists>obs rest.
           uu_part gt Logarithmic se cols row brand color (CFloat (Fin x_min)) (CFloat x_max)
             all_x_min all_x_max = Inr (obs # rest)
         \<and> tr_region obs = Observed \<and> tr_model obs = Logarithmic
         \<and> length (tr_x obs) = 300 \<and> length (tr_y obs) = 300
         \<and> (\<forall>v. hd (tr_y obs) \<noteq> Fin v)"
proof -
  let ?obs = "uu_observed gt Logarithmic brand color r2 a b (Fin x_min) x_max"
  have blk: "uu_part gt Logarithmic se cols row brand color (CFloat (Fin x_min)) (CFloat x_max)
               all_x_min all_x_max
             = Inr (uu_block gt Logarithmic se brand color r2 a b (Fin x_min) x_max all_x_min all_x_max)"
    using assms(1-5)
    by (simp add: uu_part_def bind_err_def row_get_def eq_column_def r2_column_def parse_model_def
          as_float_def format_r2_def)
  have ex: "\<exists>rest. uu_block gt Logarithmic se brand color r2 a b (Fin x_min) x_max all_x_min all_x_max
                   = ?obs # rest"
    by (simp add: uu_block_def)
  have y: "tr_y ?obs = uu_model Logarithmic a b (linspace (Fin x_min) x_max 300)"
    by (simp add: uu_observed_def)
  have hdy: "hd (tr_y ?obs)
             = fl_add (fl_mul a (np_log (hd (linspace (Fin x_min) x_max 300)))) b"
    unfolding y by (rule hd_uu_log) (simp add: linspace_nonempty)
  have first: "hd (linspace (Fin x_min) x_max 300) = rnd64 x_min
             \<or> hd (linspace (Fin x_min) x_max 300) = NaN"
    using linspace_first_cases[of 300 x_min x_max] by (simp add: hd_linspace)
  have nf: "hd (tr_y ?obs) \<noteq> Fin v" for v
    unfolding hdy by (rule log_value_not_finite) (rule np_log_nonpos_sample[OF assms(6) first])
  have props: "tr_region ?obs = Observed" "tr_model ?obs = Logarithmic"
    "length (tr_x ?obs) = 300" "length (tr_y ?obs) = 300"
    by (simp_all add: uu_observed_def length_linspace uu_model_length)
  show ?thesis using blk ex props nf by auto
qed

theorem log_series_emitted_for_nonpositive_xmin_witness:
  "shows_model LogOnly Logarithmic \<and> LogEq \<in> set all_cols \<and> LogR2 \<in> set all_cols
   \<and> parse_log_equation (zero_min_row LogEq) = Inr (Some (Fin 2, Fin 3))
   \<and> zero_min_row LogR2 = CFloat (Fin 0.5) \<and> (0::real) \<le> 0
   \<and> (\<exists>obs rest.
           uu_part LogOnly Logarithmic False all_cols zero_min_row (CStr ''Z'') 0
             (CFloat (Fin 0)) (CFloat (Fin 10)) (Fin 0) (Fin 15) = Inr (obs # rest)
         \<and> tr_region obs = Observed \<and> tr_model obs = Logarithmic
         \<and> length (tr_x obs) = 300 \<and> length (tr_y obs) = 300
         \<and> (\<forall>v. hd (tr_y obs) \<noteq> Fin v))"
proof -
  have h1: "shows_model LogOnly Logarithmic" by (simp add: shows_model_def)
  have h2: "LogEq \<in> set all_cols" and h3: "LogR2 \<in> set all_cols" by (simp_all add: all_cols_def)
  have h4: "parse_log_equation (zero_min_row LogEq) = Inr (Some (Fin 2, Fin 3))"
    by (simp add: zero_min_row_def example_parse_log)
  have h5: "zero_min_row LogR2 = CFloat (Fin 0.5)" by (simp add: zero_min_row_def)
  have h6: "(0::real) \<le> 0" by simp
  show ?thesis
    using log_series_emitted_for_nonpositive_xmin[OF h1 h2 h3 h4 h5 h6, of False "CStr ''Z''" 0
        "Fin 10" "Fin 0" "Fin 15"] h1 h2 h3 h4 h5
    by simp
qed

end
